theory Spec2Isabelle
  imports Main
begin

section \<open>Pieces and the board (ChessBoard.svelte)\<close>

text \<open>
  \<^verbatim>\<open>ChessColorType\<close> and \<^verbatim>\<open>ChessPieceType\<close> are string-literal unions in the source;
  \<^verbatim>\<open>BoardPiece\<close> is an object \<^verbatim>\<open>{ color, type }\<close> or \<^verbatim>\<open>null\<close>. A cell of the board
  is therefore a \<open>BoardPiece option\<close>, with \<open>None\<close> for \<^verbatim>\<open>null\<close>.
\<close>

datatype ChessColorType = White | Black | Green | Blue

datatype ChessPieceType = King | Queen | Bishop | Knight | Rook | Pawn

record BoardPiece =
  color :: ChessColorType
  ptype :: ChessPieceType

type_synonym SpriteFrame = string

text \<open>
  JavaScript numbers that are used as indices are modelled as \<open>int\<close>. Reading an array
  at an index that is negative or not below its length yields \<^verbatim>\<open>undefined\<close>, which
  is \<open>None\<close> here.
\<close>

definition js_nth :: "'a list \<Rightarrow> int \<Rightarrow> 'a option" where
  "js_nth xs i = (if 0 \<le> i \<and> i < int (length xs) then Some (xs ! nat i) else None)"

text \<open>
  \<^verbatim>\<open>boardState[r]?.[c]\<close> and the test \<^verbatim>\<open>!boardState[r] || !boardState[r][c]\<close>: the row
  may be missing, the cell may be missing or \<^verbatim>\<open>null\<close>; every one of these is falsy.
\<close>

definition cell :: "BoardPiece option list list \<Rightarrow> int \<Rightarrow> int \<Rightarrow> BoardPiece option" where
  "cell b r c =
     (case js_nth b r of
        None \<Rightarrow> None
      | Some line \<Rightarrow> (case js_nth line c of None \<Rightarrow> None | Some p \<Rightarrow> p))"

text \<open>
  \<^verbatim>\<open>getInitialBoard\<close>: an 8 by 8 array of \<^verbatim>\<open>null\<close>, then two loops over the
  columns 0..7 that write the white pieces into rows 7 and 6 and the black pieces into
  rows 0 and 1. Every index written is in range, so the writes are list updates.
\<close>

definition backRow :: "ChessPieceType list" where
  "backRow = [Rook, Knight, Bishop, Queen, King, Bishop, Knight, Rook]"

definition put :: "BoardPiece option list list \<Rightarrow> nat \<Rightarrow> nat \<Rightarrow> BoardPiece \<Rightarrow> BoardPiece option list list" where
  "put b r c p = b[r := (b ! r)[c := Some p]]"

definition whiteStep :: "BoardPiece option list list \<Rightarrow> nat \<Rightarrow> BoardPiece option list list" where
  "whiteStep b c =
     put (put b 7 c \<lparr>color = White, ptype = backRow ! c\<rparr>) 6 c \<lparr>color = White, ptype = Pawn\<rparr>"

definition blackStep :: "BoardPiece option list list \<Rightarrow> nat \<Rightarrow> BoardPiece option list list" where
  "blackStep b c =
     put (put b 0 c \<lparr>color = Black, ptype = backRow ! c\<rparr>) 1 c \<lparr>color = Black, ptype = Pawn\<rparr>"

definition getInitialBoard :: "BoardPiece option list list" where
  "getInitialBoard =
     foldl blackStep (foldl whiteStep (replicate 8 (replicate 8 None)) [0..<8]) [0..<8]"

section \<open>The component state\<close>

text \<open>
  The props of the component (\<^verbatim>\<open>export let size, board, playerColor\<close>) are fixed when
  it is mounted.
\<close>

record props =
  size :: int
  board :: string
  playerColor :: ChessColorType

record square =
  row :: int
  col :: int

text \<open>
  The two browser calls the controller makes are \<^verbatim>\<open>setInterval\<close> and
  \<^verbatim>\<open>clearInterval\<close>. The browser's side of them is part of the state: the handles
  of the intervals that are running (\<open>timers\<close>), the handle the next \<^verbatim>\<open>setInterval\<close>
  returns (\<open>nextTimer\<close>; handles are positive integers) and the log of the calls made so
  far (\<open>calls\<close>).
\<close>

datatype timer_call = SetInterval nat | ClearInterval nat

record component =
  boardState :: "BoardPiece option list list"
  pieceSprites :: "(ChessColorType \<rightharpoonup> (ChessPieceType \<rightharpoonup> SpriteFrame)) option"
  animationFrames :: "(ChessColorType \<rightharpoonup> (ChessPieceType \<rightharpoonup> SpriteFrame list)) option"
  loading :: bool
  selectedPiece :: "square option"
  currentFrame :: int
  animationInterval :: "nat option"
  timers :: "nat list"
  nextTimer :: nat
  calls :: "timer_call list"

text \<open>The values of the \<^verbatim>\<open>let\<close> declarations of the script, before \<^verbatim>\<open>onMount\<close> runs.\<close>

definition initial :: component where
  "initial =
     \<lparr>boardState = [], pieceSprites = None, animationFrames = None, loading = True,
      selectedPiece = None, currentFrame = 0, animationInterval = None,
      timers = [], nextTimer = 1, calls = []\<rparr>"

section \<open>The animation controller\<close>

definition clearInterval :: "nat \<Rightarrow> component \<Rightarrow> component" where
  "clearInterval h s = s\<lparr>timers := removeAll h (timers s), calls := calls s @ [ClearInterval h]\<rparr>"

definition setInterval :: "component \<Rightarrow> nat \<times> component" where
  "setInterval s =
     (nextTimer s,
      s\<lparr>timers := timers s @ [nextTimer s], nextTimer := Suc (nextTimer s),
        calls := calls s @ [SetInterval (nextTimer s)]\<rparr>)"

text \<open>
  \<^verbatim>\<open>stopAnimation\<close>. The test \<^verbatim>\<open>if (animationInterval)\<close> is a truthiness test: it
  fails for \<^verbatim>\<open>null\<close> and for the number 0.
\<close>

definition stopAnimation :: "component \<Rightarrow> component" where
  "stopAnimation s =
     (let s1 = (case animationInterval s of
                  None \<Rightarrow> s
                | Some h \<Rightarrow> if h \<noteq> 0 then (clearInterval h s)\<lparr>animationInterval := None\<rparr> else s)
      in s1\<lparr>selectedPiece := None, currentFrame := 0\<rparr>)"

definition startAnimation :: "component \<Rightarrow> int \<Rightarrow> int \<Rightarrow> component" where
  "startAnimation s r c =
     (let s1 = stopAnimation s in
      if cell (boardState s1) r c = None then s1
      else
        (let s2 = s1\<lparr>selectedPiece := Some \<lparr>row = r, col = c\<rparr>, currentFrame := 0\<rparr>;
             (h, s3) = setInterval s2
         in s3\<lparr>animationInterval := Some h\<rparr>))"

definition handleSquareClick :: "props \<Rightarrow> component \<Rightarrow> int \<Rightarrow> int \<Rightarrow> component" where
  "handleSquareClick pr s r c =
     (case cell (boardState s) r c of
        None \<Rightarrow> stopAnimation s
      | Some piece \<Rightarrow>
          if color piece \<noteq> playerColor pr then s
          else if (case selectedPiece s of
                     None \<Rightarrow> False
                   | Some sel \<Rightarrow> row sel = r \<and> col sel = c) then stopAnimation s
          else startAnimation s r c)"

definition isSelected :: "component \<Rightarrow> int \<Rightarrow> int \<Rightarrow> bool" where
  "isSelected s r c =
     (case selectedPiece s of None \<Rightarrow> False | Some sel \<Rightarrow> row sel = r \<and> col sel = c)"

text \<open>The callback of the interval, \<^verbatim>\<open>() => { currentFrame++; }\<close>.\<close>

definition tick :: "component \<Rightarrow> component" where
  "tick s = s\<lparr>currentFrame := currentFrame s + 1\<rparr>"

text \<open>
  \<^verbatim>\<open>getPieceSprite(r, c, frame, selected)\<close>. The result is \<open>None\<close> for \<^verbatim>\<open>null\<close> and
  for \<^verbatim>\<open>undefined\<close>. \<^verbatim>\<open>frame % frames.length\<close> is JavaScript's remainder, whose sign
  is the sign of \<^verbatim>\<open>frame\<close>; \<^verbatim>\<open>x || null\<close> gives \<^verbatim>\<open>null\<close> for a missing entry and for
  the empty string.
\<close>

definition js_rem :: "int \<Rightarrow> int \<Rightarrow> int" where
  "js_rem a b = sgn a * (\<bar>a\<bar> mod \<bar>b\<bar>)"

definition staticSprite ::
  "(ChessColorType \<rightharpoonup> (ChessPieceType \<rightharpoonup> SpriteFrame)) \<Rightarrow> BoardPiece \<Rightarrow> SpriteFrame option" where
  "staticSprite ps piece =
     (case ps (color piece) of
        None \<Rightarrow> None
      | Some m \<Rightarrow> (case m (ptype piece) of
                    None \<Rightarrow> None
                  | Some f \<Rightarrow> if f = [] then None else Some f))"

definition getPieceSprite ::
  "component \<Rightarrow> int \<Rightarrow> int \<Rightarrow> int \<Rightarrow> square option \<Rightarrow> SpriteFrame option" where
  "getPieceSprite s r c frame selected =
     (case pieceSprites s of
        None \<Rightarrow> None
      | Some ps \<Rightarrow>
          (case cell (boardState s) r c of
             None \<Rightarrow> None
           | Some piece \<Rightarrow>
               (case (if (case selected of None \<Rightarrow> False
                                         | Some sel \<Rightarrow> row sel = r \<and> col sel = c)
                      then (case animationFrames s of
                              None \<Rightarrow> None
                            | Some af \<Rightarrow>
                                (case af (color piece) of
                                   None \<Rightarrow> None
                                 | Some m \<Rightarrow> m (ptype piece)))
                      else None) of
                  Some frames \<Rightarrow>
                    if length frames > 0 then js_nth frames (js_rem frame (int (length frames)))
                    else staticSprite ps piece
                | None \<Rightarrow> staticSprite ps piece)))"

section \<open>Events of the component\<close>

text \<open>
  What can happen to a mounted component: a click on the square \<open>(r, c)\<close>
  (\<^verbatim>\<open>on:click\<close>, and \<^verbatim>\<open>on:keydown\<close> with Enter), the browser firing the interval
  with handle \<open>h\<close> (which it does only while that interval is running), the synchronous
  part of \<^verbatim>\<open>onMount\<close>, the continuation of \<^verbatim>\<open>onMount\<close> after both loaders have
  resolved (\<^verbatim>\<open>[pieceSprites, animationFrames] = await Promise.all(...)\<close>), and
  \<^verbatim>\<open>onDestroy\<close>.
\<close>

datatype event =
    Click int int
  | Timer nat
  | Mount
  | Loaded "ChessColorType \<rightharpoonup> (ChessPieceType \<rightharpoonup> SpriteFrame)"
           "ChessColorType \<rightharpoonup> (ChessPieceType \<rightharpoonup> SpriteFrame list)"
  | Destroy

definition step :: "props \<Rightarrow> component \<Rightarrow> event \<Rightarrow> component" where
  "step pr s ev =
     (case ev of
        Click r c \<Rightarrow> handleSquareClick pr s r c
      | Timer h \<Rightarrow> if h \<in> set (timers s) then tick s else s
      | Mount \<Rightarrow> s\<lparr>boardState := getInitialBoard\<rparr>
      | Loaded ps af \<Rightarrow> s\<lparr>pieceSprites := Some ps, animationFrames := Some af, loading := False\<rparr>
      | Destroy \<Rightarrow> stopAnimation s)"

definition after :: "props \<Rightarrow> component \<Rightarrow> event list \<Rightarrow> component" where
  "after pr s evs = foldl (step pr) s evs"

definition run :: "props \<Rightarrow> event list \<Rightarrow> component" where
  "run pr evs = after pr initial evs"

text \<open>
  What holds of the state after every sequence of events: the browser runs exactly the
  interval whose handle the component holds, a handle is held exactly while a square is
  selected, the frame counter is 0 while nothing is selected, the selected square holds a
  piece of the player, and the two sprite tables are loaded together.
\<close>

definition wellformed :: "props \<Rightarrow> component \<Rightarrow> bool" where
  "wellformed pr s \<longleftrightarrow>
     0 < nextTimer s \<and>
     (\<forall>h \<in> set (timers s). 0 < h \<and> h < nextTimer s) \<and>
     timers s = (case animationInterval s of None \<Rightarrow> [] | Some h \<Rightarrow> [h]) \<and>
     (selectedPiece s = None \<longleftrightarrow> animationInterval s = None) \<and>
     (selectedPiece s = None \<longrightarrow> currentFrame s = 0) \<and>
     0 \<le> currentFrame s \<and>
     (\<forall>sel. selectedPiece s = Some sel \<longrightarrow>
        (\<exists>p. cell (boardState s) (row sel) (col sel) = Some p \<and> color p = playerColor pr)) \<and>
     (boardState s = [] \<or> boardState s = getInitialBoard) \<and>
     (pieceSprites s = None \<longleftrightarrow> animationFrames s = None)"

text \<open>The props the component has when its parent passes none but the size.\<close>

definition defaults :: props where
  "defaults = \<lparr>size = 8, board = ''/assets/boards/chessBoard1.webp'', playerColor = White\<rparr>"

text \<open>A white and a black piece on a square, for writing the starting position down.\<close>

definition wp :: "ChessPieceType \<Rightarrow> BoardPiece option" where
  "wp t = Some \<lparr>color = White, ptype = t\<rparr>"

definition bp :: "ChessPieceType \<Rightarrow> BoardPiece option" where
  "bp t = Some \<lparr>color = Black, ptype = t\<rparr>"

text \<open>Whether an event is a click.\<close>

definition isClick :: "event \<Rightarrow> bool" where
  "isClick ev = (case ev of Click r c \<Rightarrow> True | _ \<Rightarrow> False)"

text \<open>
  In the spec's words: the animation frame list that is known for a piece and the static
  sprite that is known for a piece, read from the two tables of the component.
\<close>

definition knownFrames :: "component \<Rightarrow> BoardPiece \<Rightarrow> SpriteFrame list option" where
  "knownFrames s piece =
     (case animationFrames s of
        None \<Rightarrow> None
      | Some af \<Rightarrow> (case af (color piece) of None \<Rightarrow> None | Some m \<Rightarrow> m (ptype piece)))"

definition knownSprite :: "component \<Rightarrow> BoardPiece \<Rightarrow> SpriteFrame option" where
  "knownSprite s piece =
     (case pieceSprites s of
        None \<Rightarrow> None
      | Some ps \<Rightarrow> (case ps (color piece) of None \<Rightarrow> None | Some m \<Rightarrow> m (ptype piece)))"

text \<open>
  Tables, props and a sequence of events to run the component on: e2 is selected and its
  interval fires five times.
\<close>

definition sampleSprites :: "ChessColorType \<rightharpoonup> (ChessPieceType \<rightharpoonup> SpriteFrame)" where
  "sampleSprites = [White \<mapsto> [Pawn \<mapsto> ''data:pawn'']]"

definition sampleFrames :: "ChessColorType \<rightharpoonup> (ChessPieceType \<rightharpoonup> SpriteFrame list)" where
  "sampleFrames = [White \<mapsto> [Pawn \<mapsto> [''data:0'', ''data:1'', ''data:2'', ''data:3'']]]"

definition wide :: props where
  "wide = \<lparr>size = 10, board = ''/assets/boards/chessBoard1.webp'', playerColor = White\<rparr>"

definition sampleRun :: "event list" where
  "sampleRun = [Mount, Loaded sampleSprites sampleFrames, Click 6 4,
                Timer 1, Timer 1, Timer 1, Timer 1, Timer 1]"

section \<open>Images, canvases and the browser (utils/sprites.ts)\<close>

text \<open>
  The sprite utilities run in a browser: they load an image by URL, draw parts of it on a
  canvas and read the canvas back as a data URL. What the browser does is not code of the
  repository; it is a parameter of the model. An image has a width, a height and a
  colour at every position inside; a canvas bitmap is a list of rows of pixels, \<open>None\<close>
  being a pixel that is still transparent.
\<close>

type_synonym rgba = nat

record image =
  width :: nat
  height :: nat
  pixel :: "nat \<Rightarrow> nat \<Rightarrow> rgba"

type_synonym bitmap = "rgba option list list"

text \<open>
  The two errors the utilities raise themselves, \<^verbatim>\<open>new Error('Failed to load image: ' + url)\<close>
  (the spec's \<open>LoadError\<close>) and \<^verbatim>\<open>new Error('Could not get canvas context')\<close> (the
  spec's \<open>RenderError\<close>), and the \<^verbatim>\<open>TypeError\<close> that JavaScript raises when a
  property of \<^verbatim>\<open>undefined\<close> is read.
\<close>

datatype error = LoadError string | RenderError | TypeError

text \<open>
  The browser: the outcome of the \<open>n\<close>-th image request for a URL (\<open>None\<close> when the fetch
  or the decoding fails, so that \<^verbatim>\<open>onerror\<close> fires; every request is taken to settle),
  the URLs requested so far, whether \<^verbatim>\<open>getContext('2d')\<close> returns a context, how a
  source pixel is composited over a pixel already drawn, and the PNG encoder behind
  \<^verbatim>\<open>canvas.toDataURL('image/png')\<close>.
\<close>

record browser =
  respond :: "nat \<Rightarrow> string \<Rightarrow> image option"
  requested :: "string list"
  context2d :: bool
  blend :: "rgba \<Rightarrow> rgba \<Rightarrow> rgba"
  toDataURL :: "bitmap \<Rightarrow> SpriteFrame"

text \<open>\<^verbatim>\<open>loadImage\<close>: one request, resolved by \<^verbatim>\<open>onload\<close> or rejected by \<^verbatim>\<open>onerror\<close>.\<close>

definition loadImage :: "browser \<Rightarrow> string \<Rightarrow> (error + image) \<times> browser" where
  "loadImage b url =
     (case respond b (length (requested b)) url of
        None \<Rightarrow> Inl (LoadError url)
      | Some img \<Rightarrow> Inr img,
      b\<lparr>requested := requested b @ [url]\<rparr>)"

text \<open>
  The canvas calls the utilities make. \<open>newCanvas\<close> is \<^verbatim>\<open>createElement('canvas')\<close>
  followed by the assignments of \<^verbatim>\<open>width\<close> and \<^verbatim>\<open>height\<close>. \<open>drawImage\<close> is the
  nine-argument \<^verbatim>\<open>ctx.drawImage(img, sx, sy, sw, sh, dx, dy, dw, dh)\<close> with
  \<^verbatim>\<open>dw = sw\<close> and \<^verbatim>\<open>dh = sh\<close>, as at every call in the source: no scaling; the
  part of the source rectangle that lies outside the image draws nothing.
\<close>

definition pixelAt :: "image \<Rightarrow> nat \<Rightarrow> nat \<Rightarrow> rgba option" where
  "pixelAt img x y = (if x < width img \<and> y < height img then Some (pixel img x y) else None)"

definition newCanvas :: "nat \<Rightarrow> nat \<Rightarrow> bitmap" where
  "newCanvas w h = replicate h (replicate w None)"

definition clearRect :: "nat \<Rightarrow> nat \<Rightarrow> nat \<Rightarrow> nat \<Rightarrow> bitmap \<Rightarrow> bitmap" where
  "clearRect x y w h cv =
     map (\<lambda>(j, line).
            map (\<lambda>(i, p). if x \<le> i \<and> i < x + w \<and> y \<le> j \<and> j < y + h then None else p)
              (enumerate 0 line))
       (enumerate 0 cv)"

definition drawImage ::
  "browser \<Rightarrow> image \<Rightarrow> nat \<Rightarrow> nat \<Rightarrow> nat \<Rightarrow> nat \<Rightarrow> nat \<Rightarrow> nat \<Rightarrow> bitmap \<Rightarrow> bitmap" where
  "drawImage b img sx sy sw sh dx dy cv =
     map (\<lambda>(j, line).
            map (\<lambda>(i, p).
                   if dx \<le> i \<and> i < dx + sw \<and> dy \<le> j \<and> j < dy + sh
                   then (case pixelAt img (sx + (i - dx)) (sy + (j - dy)) of
                           None \<Rightarrow> p
                         | Some q \<Rightarrow> Some (case p of None \<Rightarrow> q | Some d \<Rightarrow> blend b q d))
                   else p)
              (enumerate 0 line))
       (enumerate 0 cv)"

text \<open>
  The three statements every utility repeats for one frame: \<^verbatim>\<open>clearRect(0, 0, frameWidth,
  frameHeight)\<close>, \<^verbatim>\<open>drawImage(img, column * frameWidth, row * frameHeight, frameWidth,
  frameHeight, 0, 0, frameWidth, frameHeight)\<close> and \<^verbatim>\<open>canv.toDataURL('image/png')\<close>.
\<close>

definition capture ::
  "browser \<Rightarrow> image \<Rightarrow> nat \<Rightarrow> nat \<Rightarrow> nat \<Rightarrow> nat \<Rightarrow> bitmap \<Rightarrow> SpriteFrame \<times> bitmap" where
  "capture b img frameWidth frameHeight column r cv =
     (let cv1 = clearRect 0 0 frameWidth frameHeight cv;
          cv2 = drawImage b img (column * frameWidth) (r * frameHeight) frameWidth frameHeight 0 0 cv1
      in (toDataURL b cv2, cv2))"

text \<open>
  The spec's words: the crop of the rectangle \<open>[x, y, w, h]\<close> of an image, as a bitmap of
  its own, and a bitmap of a given size.
\<close>

definition crop :: "image \<Rightarrow> nat \<Rightarrow> nat \<Rightarrow> nat \<Rightarrow> nat \<Rightarrow> bitmap" where
  "crop img x y w h = map (\<lambda>j. map (\<lambda>i. pixelAt img (x + i) (y + j)) [0..<w]) [0..<h]"

definition sized :: "nat \<Rightarrow> nat \<Rightarrow> bitmap \<Rightarrow> bool" where
  "sized w h cv \<longleftrightarrow> length cv = h \<and> list_all (\<lambda>line. length line = w) cv"

text \<open>
  \<^verbatim>\<open>splitSpriteSheet(url, columns, rows)\<close>. The inner and the outer \<^verbatim>\<open>for\<close> loop
  carry the canvas and the frames pushed so far. \<^verbatim>\<open>Math.floor(img.width / columns)\<close>
  is \<open>div\<close> for \<open>columns \<ge> 1\<close>.
\<close>

function splitColumns ::
  "browser \<Rightarrow> image \<Rightarrow> nat \<Rightarrow> nat \<Rightarrow> nat \<Rightarrow> nat \<Rightarrow> nat \<Rightarrow> bitmap \<times> SpriteFrame list
     \<Rightarrow> bitmap \<times> SpriteFrame list" where
  "splitColumns b img frameWidth frameHeight columns r c (cv, frames) =
     (if c < columns
      then (let (f, cv') = capture b img frameWidth frameHeight c r cv
            in splitColumns b img frameWidth frameHeight columns r (Suc c) (cv', frames @ [f]))
      else (cv, frames))"
  by pat_completeness auto
termination
  by (relation "measure (\<lambda>(b, img, fw, fh, columns, r, c, st). columns - c)") auto

function splitRows ::
  "browser \<Rightarrow> image \<Rightarrow> nat \<Rightarrow> nat \<Rightarrow> nat \<Rightarrow> nat \<Rightarrow> nat \<Rightarrow> bitmap \<times> SpriteFrame list
     \<Rightarrow> bitmap \<times> SpriteFrame list" where
  "splitRows b img frameWidth frameHeight columns rows r st =
     (if r < rows
      then splitRows b img frameWidth frameHeight columns rows (Suc r)
             (splitColumns b img frameWidth frameHeight columns r 0 st)
      else st)"
  by pat_completeness auto
termination
  by (relation "measure (\<lambda>(b, img, fw, fh, columns, rows, r, st). rows - r)") auto

definition splitSpriteSheet ::
  "browser \<Rightarrow> string \<Rightarrow> nat \<Rightarrow> nat \<Rightarrow> (error + SpriteFrame list) \<times> browser" where
  "splitSpriteSheet b url columns rows =
     (case loadImage b url of
        (Inl e, b') \<Rightarrow> (Inl e, b')
      | (Inr img, b') \<Rightarrow>
          (let frameWidth = width img div columns;
               frameHeight = height img div rows;
               canv = newCanvas frameWidth frameHeight
           in if \<not> context2d b' then (Inl RenderError, b')
              else (Inr (snd (splitRows b' img frameWidth frameHeight columns rows 0 (canv, []))),
                    b')))"

text \<open>\<^verbatim>\<open>extractSprite(url, column, row, frameWidth, frameHeight)\<close>.\<close>

definition extractSprite ::
  "browser \<Rightarrow> string \<Rightarrow> nat \<Rightarrow> nat \<Rightarrow> nat \<Rightarrow> nat \<Rightarrow> (error + SpriteFrame) \<times> browser" where
  "extractSprite b url column r frameWidth frameHeight =
     (case loadImage b url of
        (Inl e, b') \<Rightarrow> (Inl e, b')
      | (Inr img, b') \<Rightarrow>
          (let canv = newCanvas frameWidth frameHeight
           in if \<not> context2d b' then (Inl RenderError, b')
              else (Inr (fst (capture b' img frameWidth frameHeight column r canv)), b')))"

text \<open>
  The loop \<^verbatim>\<open>for (let col = startColumn; col <= endColumn; col++)\<close> of
  \<^verbatim>\<open>extractAnimationFrames\<close>, which \<^verbatim>\<open>extractFramesForPiece\<close> repeats with
  \<^verbatim>\<open>CHESS_SPRITE_SIZE\<close> for both sizes.
\<close>

function columnRange ::
  "browser \<Rightarrow> image \<Rightarrow> nat \<Rightarrow> nat \<Rightarrow> nat \<Rightarrow> nat \<Rightarrow> nat \<Rightarrow> bitmap \<times> SpriteFrame list
     \<Rightarrow> bitmap \<times> SpriteFrame list" where
  "columnRange b img frameWidth frameHeight r endColumn c (cv, frames) =
     (if c \<le> endColumn
      then (let (f, cv') = capture b img frameWidth frameHeight c r cv
            in columnRange b img frameWidth frameHeight r endColumn (Suc c) (cv', frames @ [f]))
      else (cv, frames))"
  by pat_completeness auto
termination
  by (relation "measure (\<lambda>(b, img, fw, fh, r, endColumn, c, st). Suc endColumn - c)") auto

definition CHESS_SPRITE_SIZE :: nat where
  "CHESS_SPRITE_SIZE = 16"

definition extractAnimationFrames ::
  "browser \<Rightarrow> string \<Rightarrow> nat \<Rightarrow> nat \<Rightarrow> nat \<Rightarrow> nat \<Rightarrow> nat \<Rightarrow> (error + SpriteFrame list) \<times> browser" where
  "extractAnimationFrames b url r startColumn endColumn frameWidth frameHeight =
     (case loadImage b url of
        (Inl e, b') \<Rightarrow> (Inl e, b')
      | (Inr img, b') \<Rightarrow>
          (let canv = newCanvas frameWidth frameHeight
           in if \<not> context2d b' then (Inl RenderError, b')
              else (Inr (snd (columnRange b' img frameWidth frameHeight r endColumn startColumn
                                (canv, []))),
                    b')))"

text \<open>The frame of grid position \<open>(column, r)\<close>, in the spec's words.\<close>

definition frameAt :: "browser \<Rightarrow> image \<Rightarrow> nat \<Rightarrow> nat \<Rightarrow> nat \<Rightarrow> nat \<Rightarrow> SpriteFrame" where
  "frameAt b img frameWidth frameHeight column r =
     toDataURL b (crop img (column * frameWidth) (r * frameHeight) frameWidth frameHeight)"

text \<open>
  A small browser to run the utilities on: a 4 by 2 image whose pixel at \<open>(x, y)\<close> has
  the colour \<open>x + 4 * y\<close>, served at one URL, and an encoder that writes one letter for
  each pixel and a slash after each row. \<open>offline\<close> is a browser in which every request
  fails and no context is available.
\<close>

definition sampleImage :: image where
  "sampleImage = \<lparr>width = 4, height = 2, pixel = (\<lambda>x y. x + 4 * y)\<rparr>"

definition sampleEncode :: "bitmap \<Rightarrow> SpriteFrame" where
  "sampleEncode bm =
     ''data:'' @ concat (map (\<lambda>line.
        map (\<lambda>p. case p of None \<Rightarrow> CHR ''.''
                  | Some v \<Rightarrow> if v < 8 then ''abcdefgh'' ! v else CHR ''?'') line @ ''/'') bm)"

definition sampleBrowser :: browser where
  "sampleBrowser =
     \<lparr>respond = (\<lambda>n url. if url = ''/sheet.png'' then Some sampleImage else None),
      requested = [], context2d = True, blend = (\<lambda>q d. q), toDataURL = sampleEncode\<rparr>"

definition offline :: browser where
  "offline =
     \<lparr>respond = (\<lambda>n url. None), requested = [], context2d = False,
      blend = (\<lambda>q d. q), toDataURL = sampleEncode\<rparr>"

text \<open>
  The outcome of a utility that loads its image first and asks for the context next:
  one request is issued; when the load fails the \<open>LoadError\<close> is the result; when it
  succeeds the result is a \<open>RenderError\<close> if no context is available and a value
  otherwise.
\<close>

definition loadsThenRenders :: "browser \<Rightarrow> string \<Rightarrow> (error + 'a) \<times> browser \<Rightarrow> bool" where
  "loadsThenRenders b url res \<longleftrightarrow>
     requested (snd res) = requested b @ [url] \<and>
     (case respond b (length (requested b)) url of
        None \<Rightarrow> fst res = Inl (LoadError url)
      | Some img \<Rightarrow> if context2d b then \<not> isl (fst res) else fst res = Inl RenderError)"

section \<open>The configuration resolver\<close>

text \<open>
  \<^verbatim>\<open>SpritePosition\<close> is \<^verbatim>\<open>{ column, row }\<close> (the field \<^verbatim>\<open>row\<close> is \<open>sheet_row\<close>
  here). A configuration is a JavaScript object: a colour or a piece type may be missing
  from it at run time, and the code tests for that, so \<^verbatim>\<open>ColorPiecesConfig\<close> and
  \<^verbatim>\<open>FullChessConfig\<close> are partial maps. The animation columns are a
  \<^verbatim>\<open>Record\<close> over all four colours that the code reads without a test.
\<close>

record SpritePosition =
  column :: nat
  sheet_row :: nat

type_synonym ColorPiecesConfig = "ChessPieceType \<rightharpoonup> SpritePosition"

type_synonym FullChessConfig = "ChessColorType \<rightharpoonup> ColorPiecesConfig"

record AnimationColumnsConfig =
  startColumn :: nat
  endColumn :: nat

text \<open>
  \<^verbatim>\<open>loadChessPiecesWithConfig\<close>. \<open>extractSingle\<close> and \<open>extractColorSet\<close> are its two
  closures; the object literal of \<open>extractColorSet\<close> evaluates its six fields in
  order, and reading the position of a missing colour or piece raises a
  \<^verbatim>\<open>TypeError\<close>. \<open>optionalColorSet\<close> is \<^verbatim>\<open>config.green ? extractColorSet(config.green) : {}\<close>.
\<close>

definition extractSingle ::
  "browser \<Rightarrow> image \<Rightarrow> nat \<Rightarrow> nat \<Rightarrow> SpritePosition \<Rightarrow> bitmap \<Rightarrow> SpriteFrame \<times> bitmap" where
  "extractSingle b img frameWidth frameHeight pos cv =
     capture b img frameWidth frameHeight (column pos) (sheet_row pos) cv"

fun extractFields ::
  "browser \<Rightarrow> image \<Rightarrow> nat \<Rightarrow> nat \<Rightarrow> ColorPiecesConfig \<Rightarrow> ChessPieceType list
     \<Rightarrow> bitmap \<times> (ChessPieceType \<rightharpoonup> SpriteFrame)
     \<Rightarrow> error + bitmap \<times> (ChessPieceType \<rightharpoonup> SpriteFrame)" where
  "extractFields b img fw fh colorConfig [] st = Inr st"
| "extractFields b img fw fh colorConfig (t # ts) (cv, m) =
     (case colorConfig t of
        None \<Rightarrow> Inl TypeError
      | Some pos \<Rightarrow>
          (let (f, cv') = extractSingle b img fw fh pos cv
           in extractFields b img fw fh colorConfig ts (cv', m(t \<mapsto> f))))"

definition extractColorSet ::
  "browser \<Rightarrow> image \<Rightarrow> nat \<Rightarrow> nat \<Rightarrow> ColorPiecesConfig option \<Rightarrow> bitmap
     \<Rightarrow> error + bitmap \<times> (ChessPieceType \<rightharpoonup> SpriteFrame)" where
  "extractColorSet b img fw fh colorConfig cv =
     (case colorConfig of
        None \<Rightarrow> Inl TypeError
      | Some cc \<Rightarrow>
          extractFields b img fw fh cc [King, Queen, Bishop, Knight, Rook, Pawn] (cv, Map.empty))"

definition optionalColorSet ::
  "browser \<Rightarrow> image \<Rightarrow> nat \<Rightarrow> nat \<Rightarrow> ColorPiecesConfig option \<Rightarrow> bitmap
     \<Rightarrow> error + bitmap \<times> (ChessPieceType \<rightharpoonup> SpriteFrame)" where
  "optionalColorSet b img fw fh colorConfig cv =
     (case colorConfig of
        None \<Rightarrow> Inr (cv, Map.empty)
      | Some cc \<Rightarrow> extractColorSet b img fw fh (Some cc) cv)"

definition loadChessPiecesWithConfig ::
  "browser \<Rightarrow> string \<Rightarrow> FullChessConfig \<Rightarrow> nat \<Rightarrow> nat
     \<Rightarrow> (error + (ChessColorType \<rightharpoonup> (ChessPieceType \<rightharpoonup> SpriteFrame))) \<times> browser" where
  "loadChessPiecesWithConfig b url config frameWidth frameHeight =
     (case loadImage b url of
        (Inl e, b') \<Rightarrow> (Inl e, b')
      | (Inr img, b') \<Rightarrow>
          (let canv = newCanvas frameWidth frameHeight
           in if \<not> context2d b' then (Inl RenderError, b')
              else
                (case extractColorSet b' img frameWidth frameHeight (config White) canv of
                   Inl e \<Rightarrow> (Inl e, b')
                 | Inr (cv1, white) \<Rightarrow>
                (case extractColorSet b' img frameWidth frameHeight (config Black) cv1 of
                   Inl e \<Rightarrow> (Inl e, b')
                 | Inr (cv2, black) \<Rightarrow>
                (case optionalColorSet b' img frameWidth frameHeight (config Green) cv2 of
                   Inl e \<Rightarrow> (Inl e, b')
                 | Inr (cv3, green) \<Rightarrow>
                (case optionalColorSet b' img frameWidth frameHeight (config Blue) cv3 of
                   Inl e \<Rightarrow> (Inl e, b')
                 | Inr (cv4, blue) \<Rightarrow>
                     (Inr [White \<mapsto> white, Black \<mapsto> black, Green \<mapsto> green, Blue \<mapsto> blue],
                      b')))))))"

text \<open>The default layout of the sheet: the position of each piece.\<close>

definition DEFAULT_CHESS_PIECES_CONFIG :: FullChessConfig where
  "DEFAULT_CHESS_PIECES_CONFIG =
     [Blue \<mapsto>
        [Pawn \<mapsto> \<lparr>column = 0, sheet_row = 0\<rparr>, Rook \<mapsto> \<lparr>column = 1, sheet_row = 1\<rparr>,
         Knight \<mapsto> \<lparr>column = 1, sheet_row = 2\<rparr>, Bishop \<mapsto> \<lparr>column = 2, sheet_row = 3\<rparr>,
         Queen \<mapsto> \<lparr>column = 1, sheet_row = 4\<rparr>, King \<mapsto> \<lparr>column = 2, sheet_row = 5\<rparr>],
      Green \<mapsto>
        [Pawn \<mapsto> \<lparr>column = 5, sheet_row = 0\<rparr>, Rook \<mapsto> \<lparr>column = 6, sheet_row = 1\<rparr>,
         Knight \<mapsto> \<lparr>column = 6, sheet_row = 2\<rparr>, Bishop \<mapsto> \<lparr>column = 7, sheet_row = 3\<rparr>,
         Queen \<mapsto> \<lparr>column = 6, sheet_row = 4\<rparr>, King \<mapsto> \<lparr>column = 7, sheet_row = 5\<rparr>],
      White \<mapsto>
        [Pawn \<mapsto> \<lparr>column = 0, sheet_row = 6\<rparr>, Rook \<mapsto> \<lparr>column = 1, sheet_row = 7\<rparr>,
         Knight \<mapsto> \<lparr>column = 1, sheet_row = 8\<rparr>, Bishop \<mapsto> \<lparr>column = 2, sheet_row = 9\<rparr>,
         Queen \<mapsto> \<lparr>column = 1, sheet_row = 10\<rparr>, King \<mapsto> \<lparr>column = 2, sheet_row = 11\<rparr>],
      Black \<mapsto>
        [Pawn \<mapsto> \<lparr>column = 5, sheet_row = 6\<rparr>, Rook \<mapsto> \<lparr>column = 6, sheet_row = 7\<rparr>,
         Knight \<mapsto> \<lparr>column = 6, sheet_row = 8\<rparr>, Bishop \<mapsto> \<lparr>column = 7, sheet_row = 9\<rparr>,
         Queen \<mapsto> \<lparr>column = 6, sheet_row = 10\<rparr>, King \<mapsto> \<lparr>column = 7, sheet_row = 11\<rparr>]]"

definition loadDefaultChessPieces ::
  "browser \<Rightarrow> string \<Rightarrow> FullChessConfig
     \<Rightarrow> (error + (ChessColorType \<rightharpoonup> (ChessPieceType \<rightharpoonup> SpriteFrame))) \<times> browser" where
  "loadDefaultChessPieces b url config =
     loadChessPiecesWithConfig b url config CHESS_SPRITE_SIZE CHESS_SPRITE_SIZE"

text \<open>The default layout of the sheet: animation columns of each colour.\<close>

definition DEFAULT_ANIMATION_COLUMNS :: "ChessColorType \<Rightarrow> AnimationColumnsConfig" where
  "DEFAULT_ANIMATION_COLUMNS colour =
     (case colour of
        White \<Rightarrow> \<lparr>startColumn = 1, endColumn = 4\<rparr>
      | Blue \<Rightarrow> \<lparr>startColumn = 1, endColumn = 4\<rparr>
      | Green \<Rightarrow> \<lparr>startColumn = 6, endColumn = 9\<rparr>
      | Black \<Rightarrow> \<lparr>startColumn = 6, endColumn = 9\<rparr>)"

text \<open>
  \<^verbatim>\<open>loadPieceAnimationFrames\<close>. The local \<^verbatim>\<open>result\<close> starts as an object with the
  four colour keys, each an empty object, so it is a function of the colour inside the
  loops; the object returned has all four keys.
\<close>

definition extractFramesForPiece ::
  "browser \<Rightarrow> image \<Rightarrow> nat \<Rightarrow> nat \<Rightarrow> nat \<Rightarrow> bitmap \<Rightarrow> bitmap \<times> SpriteFrame list" where
  "extractFramesForPiece b img r startCol endCol cv =
     columnRange b img CHESS_SPRITE_SIZE CHESS_SPRITE_SIZE r endCol startCol (cv, [])"

type_synonym animation_table = "ChessColorType \<Rightarrow> (ChessPieceType \<rightharpoonup> SpriteFrame list)"

fun pieceTypesLoop ::
  "browser \<Rightarrow> image \<Rightarrow> ColorPiecesConfig \<Rightarrow> AnimationColumnsConfig \<Rightarrow> ChessColorType
     \<Rightarrow> ChessPieceType list \<Rightarrow> bitmap \<times> animation_table \<Rightarrow> bitmap \<times> animation_table" where
  "pieceTypesLoop b img colorConfig anim colour [] st = st"
| "pieceTypesLoop b img colorConfig anim colour (pieceType # rest) (cv, result) =
     pieceTypesLoop b img colorConfig anim colour rest
       (case colorConfig pieceType of
          None \<Rightarrow> (cv, result)
        | Some piecePos \<Rightarrow>
            (let (cv', frames) =
                   extractFramesForPiece b img (sheet_row piecePos) (startColumn anim)
                     (endColumn anim) cv
             in (cv', result(colour := (result colour)(pieceType \<mapsto> frames)))))"

fun colorsLoop ::
  "browser \<Rightarrow> image \<Rightarrow> FullChessConfig \<Rightarrow> (ChessColorType \<Rightarrow> AnimationColumnsConfig)
     \<Rightarrow> ChessColorType list \<Rightarrow> bitmap \<times> animation_table \<Rightarrow> bitmap \<times> animation_table" where
  "colorsLoop b img config animConfig [] st = st"
| "colorsLoop b img config animConfig (colour # rest) st =
     colorsLoop b img config animConfig rest
       (case config colour of
          None \<Rightarrow> st
        | Some colorConfig \<Rightarrow>
            pieceTypesLoop b img colorConfig (animConfig colour) colour
              [King, Queen, Bishop, Knight, Rook, Pawn] st)"

definition loadPieceAnimationFrames ::
  "browser \<Rightarrow> string \<Rightarrow> FullChessConfig \<Rightarrow> (ChessColorType \<Rightarrow> AnimationColumnsConfig)
     \<Rightarrow> (error + (ChessColorType \<rightharpoonup> (ChessPieceType \<rightharpoonup> SpriteFrame list))) \<times> browser" where
  "loadPieceAnimationFrames b url config animConfig =
     (case loadImage b url of
        (Inl e, b') \<Rightarrow> (Inl e, b')
      | (Inr img, b') \<Rightarrow>
          (let canv = newCanvas CHESS_SPRITE_SIZE CHESS_SPRITE_SIZE
           in if \<not> context2d b' then (Inl RenderError, b')
              else
                (let (cv, result) =
                       colorsLoop b' img config animConfig [White, Black, Green, Blue]
                         (canv, \<lambda>colour. Map.empty)
                 in (Inr (\<lambda>colour. Some (result colour)), b'))))"

text \<open>
  In the spec's words: the sprite of a position, the animation strip of a position, the
  tables a colour's configuration resolves to (nothing for a missing colour or piece),
  and a colour configuration that has all six positions.
\<close>

definition spriteOf :: "browser \<Rightarrow> image \<Rightarrow> nat \<Rightarrow> nat \<Rightarrow> SpritePosition \<Rightarrow> SpriteFrame" where
  "spriteOf b img fw fh pos =
     toDataURL b (crop img (column pos * fw) (sheet_row pos * fh) fw fh)"

definition stripOf ::
  "browser \<Rightarrow> image \<Rightarrow> AnimationColumnsConfig \<Rightarrow> SpritePosition \<Rightarrow> SpriteFrame list" where
  "stripOf b img anim pos =
     map (\<lambda>c. toDataURL b (crop img (c * CHESS_SPRITE_SIZE) (sheet_row pos * CHESS_SPRITE_SIZE)
                   CHESS_SPRITE_SIZE CHESS_SPRITE_SIZE))
       [startColumn anim..<Suc (endColumn anim)]"

definition complete :: "ColorPiecesConfig option \<Rightarrow> bool" where
  "complete colorConfig \<longleftrightarrow>
     (case colorConfig of
        None \<Rightarrow> False
      | Some cc \<Rightarrow> list_all (\<lambda>t. cc t \<noteq> None) [King, Queen, Bishop, Knight, Rook, Pawn])"

definition spritesOf ::
  "browser \<Rightarrow> image \<Rightarrow> nat \<Rightarrow> nat \<Rightarrow> ColorPiecesConfig option \<Rightarrow> (ChessPieceType \<rightharpoonup> SpriteFrame)" where
  "spritesOf b img fw fh colorConfig =
     (case colorConfig of
        None \<Rightarrow> Map.empty
      | Some cc \<Rightarrow> (\<lambda>t. map_option (spriteOf b img fw fh) (cc t)))"

definition stripsOf ::
  "browser \<Rightarrow> image \<Rightarrow> AnimationColumnsConfig \<Rightarrow> ColorPiecesConfig option
     \<Rightarrow> (ChessPieceType \<rightharpoonup> SpriteFrame list)" where
  "stripsOf b img anim colorConfig =
     (case colorConfig of
        None \<Rightarrow> Map.empty
      | Some cc \<Rightarrow> (\<lambda>t. map_option (stripOf b img anim) (cc t)))"

text \<open>Two configurations with something missing from them.\<close>

definition twoColors :: FullChessConfig where
  "twoColors = DEFAULT_CHESS_PIECES_CONFIG |` {White, Black}"

definition pawnsOnly :: FullChessConfig where
  "pawnsOnly = [White \<mapsto> [Pawn \<mapsto> \<lparr>column = 0, sheet_row = 6\<rparr>]]"

section \<open>The starting position\<close>

lemma upt8: "[0..<8] = [0, 1, 2, 3, 4, 5, 6, 7::nat]"
  by (simp add: upt_rec)

lemma getInitialBoard_layout:
  "getInitialBoard =
     [map bp [Rook, Knight, Bishop, Queen, King, Bishop, Knight, Rook],
      replicate 8 (bp Pawn),
      replicate 8 None, replicate 8 None, replicate 8 None, replicate 8 None,
      replicate 8 (wp Pawn),
      map wp [Rook, Knight, Bishop, Queen, King, Bishop, Knight, Rook]]"
  by (simp add: getInitialBoard_def upt8 whiteStep_def blackStep_def put_def backRow_def
      wp_def bp_def eval_nat_numeral)

lemmas board_eval =
  getInitialBoard_layout cell_def js_nth_def wp_def bp_def eval_nat_numeral

lemma cell_Nil: "cell [] r c = None"
  by (auto simp: cell_def js_nth_def)

lemma cell_e2: "cell getInitialBoard 6 4 = Some \<lparr>color = White, ptype = Pawn\<rparr>"
  by (simp add: board_eval)

lemma cell_d2: "cell getInitialBoard 6 3 = Some \<lparr>color = White, ptype = Pawn\<rparr>"
  by (simp add: board_eval)

lemma cell_e4: "cell getInitialBoard 4 4 = None"
  by (simp add: board_eval)

lemma cell_e7: "cell getInitialBoard 1 4 = Some \<lparr>color = Black, ptype = Pawn\<rparr>"
  by (simp add: board_eval)

lemma playerColor_defaults: "playerColor defaults = White"
  by (simp add: defaults_def)

section \<open>The invariant of the controller\<close>

lemma wellformed_initial: "wellformed pr initial"
  by (simp add: wellformed_def initial_def)

lemma wellformed_stop: "wellformed pr s \<Longrightarrow> wellformed pr (stopAnimation s)"
  by (auto simp: wellformed_def stopAnimation_def clearInterval_def Let_def split: option.splits)

lemma stop_idle:
  "wellformed pr s \<Longrightarrow>
     timers (stopAnimation s) = [] \<and> animationInterval (stopAnimation s) = None \<and>
     selectedPiece (stopAnimation s) = None \<and> currentFrame (stopAnimation s) = 0 \<and>
     boardState (stopAnimation s) = boardState s \<and> nextTimer (stopAnimation s) = nextTimer s"
  by (auto simp: wellformed_def stopAnimation_def clearInterval_def Let_def split: option.splits)

lemma stop_calls:
  "wellformed pr s \<Longrightarrow> calls (stopAnimation s) = calls s @ map ClearInterval (timers s)"
  by (auto simp: wellformed_def stopAnimation_def clearInterval_def Let_def split: option.splits)

lemma start_calls:
  assumes "wellformed pr s"
  shows "calls (startAnimation s r c) =
           calls s @ map ClearInterval (timers s) @
             (if cell (boardState s) r c = None then [] else [SetInterval (nextTimer s)])"
    and "timers (startAnimation s r c) =
           (if cell (boardState s) r c = None then [] else [nextTimer s])"
    and "selectedPiece (startAnimation s r c) =
           (if cell (boardState s) r c = None then None else Some \<lparr>row = r, col = c\<rparr>)"
    and "animationInterval (startAnimation s r c) =
           (if cell (boardState s) r c = None then None else Some (nextTimer s))"
  using stop_idle[OF assms] stop_calls[OF assms]
  by (simp_all add: startAnimation_def Let_def setInterval_def)

lemma wellformed_start:
  assumes "wellformed pr s" "cell (boardState s) r c = Some p" "color p = playerColor pr"
  shows "wellformed pr (startAnimation s r c)"
proof -
  let ?s1 = "stopAnimation s"
  have w1: "wellformed pr ?s1"
    using assms(1) by (rule wellformed_stop)
  have i1: "timers ?s1 = []" "animationInterval ?s1 = None" "boardState ?s1 = boardState s"
    using stop_idle[OF assms(1)] by simp_all
  show ?thesis
    using w1 i1 assms(2,3)
    by (simp add: startAnimation_def Let_def setInterval_def wellformed_def)
qed

lemma wellformed_click: "wellformed pr s \<Longrightarrow> wellformed pr (handleSquareClick pr s r c)"
  by (auto simp: handleSquareClick_def wellformed_stop wellformed_start split: option.splits)

lemma wellformed_step:
  assumes "wellformed pr s"
  shows "wellformed pr (step pr s ev)"
proof (cases ev)
  case (Click r c)
  then show ?thesis
    using assms by (simp add: step_def wellformed_click)
next
  case (Timer h)
  then show ?thesis
    using assms by (auto simp: step_def tick_def wellformed_def split: option.splits)
next
  case Mount
  then show ?thesis
    using assms by (auto simp: step_def wellformed_def cell_Nil)
next
  case (Loaded ps af)
  then show ?thesis
    using assms by (simp add: step_def wellformed_def)
next
  case Destroy
  then show ?thesis
    using assms by (simp add: step_def wellformed_stop)
qed

lemma wellformed_after: "wellformed pr s \<Longrightarrow> wellformed pr (after pr s evs)"
  unfolding after_def by (induction evs arbitrary: s) (simp_all add: wellformed_step)

lemma wellformed_run: "wellformed pr (run pr evs)"
  by (simp add: run_def wellformed_after wellformed_initial)

lemma run_after: "after pr (run pr evs) evs' = run pr (evs @ evs')"
  by (simp add: after_def run_def)

lemmas controller_eval =
  run_def after_def initial_def step_def handleSquareClick_def startAnimation_def
  stopAnimation_def setInterval_def clearInterval_def tick_def Let_def

lemma run_e2:
  "run defaults [Mount, Click 6 4] =
     \<lparr>boardState = getInitialBoard, pieceSprites = None, animationFrames = None, loading = True,
      selectedPiece = Some \<lparr>row = 6, col = 4\<rparr>, currentFrame = 0, animationInterval = Some 1,
      timers = [1], nextTimer = 2, calls = [SetInterval 1]\<rparr>"
  by (simp add: controller_eval cell_Nil cell_e2 playerColor_defaults)

section \<open>One animation session at a time\<close>

text \<open>
  Claim C1. After every sequence of events (clicks, timer firings, mounting, loading,
  destruction) the browser runs at most one interval, it is the one whose handle the
  component holds, and a square is selected exactly when it runs. \<open>startAnimation\<close>
  first clears every running interval and the selection and only then selects the new
  square and starts the new interval: its calls to the browser are the
  \<^verbatim>\<open>clearInterval\<close> of what was running followed by one \<^verbatim>\<open>setInterval\<close>. In
  particular a click on a piece B of the player while another square A is selected
  clears A's interval before B's is set, and B's handle is a new one.
\<close>

theorem one_animation_session:
  assumes "s = run pr evs"
  shows "length (timers s) \<le> 1
     \<and> timers s = (case animationInterval s of None \<Rightarrow> [] | Some h \<Rightarrow> [h])
     \<and> (selectedPiece s = None \<longleftrightarrow> animationInterval s = None)
     \<and> nextTimer s \<notin> set (timers s)
     \<and> timers (stopAnimation s) = [] \<and> selectedPiece (stopAnimation s) = None
     \<and> calls (startAnimation s r c) =
          calls s @ map ClearInterval (timers s) @
            (if cell (boardState s) r c = None then [] else [SetInterval (nextTimer s)])
     \<and> timers (startAnimation s r c) =
          (if cell (boardState s) r c = None then [] else [nextTimer s])
     \<and> selectedPiece (startAnimation s r c) =
          (if cell (boardState s) r c = None then None else Some \<lparr>row = r, col = c\<rparr>)
     \<and> (selectedPiece s = Some a \<and> (row a \<noteq> r \<or> col a \<noteq> c) \<and>
         cell (boardState s) r c = Some p \<and> color p = playerColor pr \<longrightarrow>
           (\<exists>h. timers s = [h] \<and> h \<noteq> nextTimer s \<and>
              calls (handleSquareClick pr s r c) =
                calls s @ [ClearInterval h, SetInterval (nextTimer s)] \<and>
              timers (handleSquareClick pr s r c) = [nextTimer s] \<and>
              selectedPiece (handleSquareClick pr s r c) = Some \<lparr>row = r, col = c\<rparr>))"
proof -
  have wf: "wellformed pr s"
    using assms by (simp add: wellformed_run)
  have t: "timers s = (case animationInterval s of None \<Rightarrow> [] | Some h \<Rightarrow> [h])"
    and sel: "selectedPiece s = None \<longleftrightarrow> animationInterval s = None"
    and fresh: "\<forall>h \<in> set (timers s). h < nextTimer s"
    using wf by (simp_all add: wellformed_def)
  have len: "length (timers s) \<le> 1"
    using t by (simp split: option.splits)
  have nf: "nextTimer s \<notin> set (timers s)"
    using fresh by auto
  note st = stop_idle[OF wf] start_calls[OF wf, of r c]
  have switch: "\<exists>h. timers s = [h] \<and> h \<noteq> nextTimer s \<and>
        calls (handleSquareClick pr s r c) =
          calls s @ [ClearInterval h, SetInterval (nextTimer s)] \<and>
        timers (handleSquareClick pr s r c) = [nextTimer s] \<and>
        selectedPiece (handleSquareClick pr s r c) = Some \<lparr>row = r, col = c\<rparr>"
    if a: "selectedPiece s = Some a" and ne: "row a \<noteq> r \<or> col a \<noteq> c"
      and p: "cell (boardState s) r c = Some p" and own: "color p = playerColor pr"
  proof -
    obtain h where h: "animationInterval s = Some h"
      using a sel by (cases "animationInterval s") auto
    have th: "timers s = [h]"
      using t h by simp
    have click: "handleSquareClick pr s r c = startAnimation s r c"
      using a ne p own by (auto simp: handleSquareClick_def)
    show ?thesis
      using th nf click p st by auto
  qed
  show ?thesis
    using len t sel nf st switch by simp
qed

text \<open>
  The scenario of the claim on the starting position, player white: e2 is selected
  (interval 1 runs), then d2 is clicked.
\<close>

theorem one_animation_session_witness:
  "selectedPiece (run defaults [Mount, Click 6 4]) = Some \<lparr>row = 6, col = 4\<rparr>
   \<and> cell (boardState (run defaults [Mount, Click 6 4])) 6 3 = Some \<lparr>color = White, ptype = Pawn\<rparr>
   \<and> color \<lparr>color = White, ptype = Pawn\<rparr> = playerColor defaults
   \<and> timers (run defaults [Mount, Click 6 4]) = [1]
   \<and> calls (handleSquareClick defaults (run defaults [Mount, Click 6 4]) 6 3) =
        [SetInterval 1, ClearInterval 1, SetInterval 2]
   \<and> timers (handleSquareClick defaults (run defaults [Mount, Click 6 4]) 6 3) = [2]
   \<and> selectedPiece (handleSquareClick defaults (run defaults [Mount, Click 6 4]) 6 3) =
        Some \<lparr>row = 6, col = 3\<rparr>"
  using one_animation_session[OF refl, where pr = defaults and evs = "[Mount, Click 6 4]"
      and r = 6 and c = 3 and a = "\<lparr>row = 6, col = 4\<rparr>"
      and p = "\<lparr>color = White, ptype = Pawn\<rparr>"]
  by (simp add: run_e2 cell_d2 playerColor_defaults)

section \<open>The frame index\<close>

lemma stop_frame: "currentFrame (stopAnimation s) = 0"
  by (simp add: stopAnimation_def Let_def)

lemma start_frame: "currentFrame (startAnimation s r c) = 0"
  by (simp add: startAnimation_def Let_def setInterval_def stop_frame split: prod.splits)

lemma click_frame: "handleSquareClick pr s r c = s \<or> currentFrame (handleSquareClick pr s r c) = 0"
  by (simp add: handleSquareClick_def stop_frame start_frame split: option.splits)

lemma ticks_only:
  "after pr s (map Timer hs) =
     s\<lparr>currentFrame := currentFrame s + int (length (filter (\<lambda>h. h \<in> set (timers s)) hs))\<rparr>"
proof (induction hs arbitrary: s)
  case Nil
  then show ?case by (simp add: after_def)
next
  case (Cons h hs)
  show ?case
  proof (cases "h \<in> set (timers s)")
    case True
    then have "after pr s (map Timer (h # hs)) = after pr (tick s) (map Timer hs)"
      by (simp add: after_def step_def)
    then show ?thesis using True by (simp add: Cons.IH tick_def add.assoc)
  next
    case False
    then have "after pr s (map Timer (h # hs)) = after pr s (map Timer hs)"
      by (simp add: after_def step_def)
    then show ?thesis using False by (simp add: Cons.IH)
  qed
qed

text \<open>
  Claim C3. \<open>stopAnimation\<close> and \<open>startAnimation\<close> leave the frame index at 0, so a
  click either changes nothing or leaves it at 0, and it is 0 whenever nothing is
  selected. While a square is selected exactly one interval runs; each firing of it adds
  exactly 1, so \<open>n\<close> firings add \<open>n\<close>, for every \<open>n\<close>. Timer firings never lower the
  index and never change the selection. (JavaScript numbers are modelled as unbounded
  integers.)
\<close>

theorem frame_index_resets_and_counts:
  assumes "s = run pr evs"
  shows "currentFrame (stopAnimation s) = 0
     \<and> currentFrame (startAnimation s r c) = 0
     \<and> (step pr s (Click r c) = s \<or> currentFrame (step pr s (Click r c)) = 0)
     \<and> (selectedPiece s = None \<longrightarrow> currentFrame s = 0)
     \<and> (selectedPiece s \<noteq> None \<longrightarrow>
          (\<exists>h. timers s = [h] \<and>
             step pr s (Timer h) = s\<lparr>currentFrame := currentFrame s + 1\<rparr> \<and>
             after pr s (replicate n (Timer h)) = s\<lparr>currentFrame := currentFrame s + int n\<rparr>))
     \<and> currentFrame s \<le> currentFrame (after pr s (map Timer hs))
     \<and> selectedPiece (after pr s (map Timer hs)) = selectedPiece s"
proof -
  have wf: "wellformed pr s"
    using assms by (simp add: wellformed_run)
  have idle: "selectedPiece s = None \<longrightarrow> currentFrame s = 0"
    using wf by (simp add: wellformed_def)
  have sel: "\<exists>h. timers s = [h] \<and>
             step pr s (Timer h) = s\<lparr>currentFrame := currentFrame s + 1\<rparr> \<and>
             after pr s (replicate n (Timer h)) = s\<lparr>currentFrame := currentFrame s + int n\<rparr>"
    if selected: "selectedPiece s \<noteq> None"
  proof -
    obtain h where h: "animationInterval s = Some h" "timers s = [h]"
      using wf selected by (cases "animationInterval s") (auto simp: wellformed_def)
    have "after pr s (map Timer (replicate n h)) = s\<lparr>currentFrame := currentFrame s + int n\<rparr>"
      unfolding ticks_only using h(2) by simp
    then show ?thesis
      using h(2) by (simp add: step_def tick_def)
  qed
  show ?thesis
    using idle sel click_frame[of pr s r c]
    by (simp add: stop_frame start_frame ticks_only step_def)
qed

lemma run_e2_ticks:
  "after defaults (run defaults [Mount, Click 6 4]) (replicate 3 (Timer 1)) =
     (run defaults [Mount, Click 6 4])\<lparr>currentFrame := 3\<rparr>"
  by (simp add: run_e2 after_def step_def tick_def eval_nat_numeral)

theorem frame_index_resets_and_counts_witness:
  "selectedPiece (run defaults [Mount, Click 6 4]) \<noteq> None
   \<and> timers (run defaults [Mount, Click 6 4]) = [1]
   \<and> currentFrame (run defaults [Mount, Click 6 4]) = 0
   \<and> currentFrame (after defaults (run defaults [Mount, Click 6 4]) (replicate 3 (Timer 1))) = 3
   \<and> currentFrame (step defaults (after defaults (run defaults [Mount, Click 6 4])
        (replicate 3 (Timer 1))) (Click 6 3)) = 0"
proof -
  let ?s = "run defaults [Mount, Click 6 4]"
  have sel: "selectedPiece ?s \<noteq> None" and t: "timers ?s = [1]" and f: "currentFrame ?s = 0"
    by (simp_all add: run_e2)
  from frame_index_resets_and_counts[OF refl, where pr = defaults and evs = "[Mount, Click 6 4]"
      and n = 3 and r = 6 and c = 3 and hs = "[]"] sel t
  have three: "after defaults ?s (replicate 3 (Timer 1)) = ?s\<lparr>currentFrame := currentFrame ?s + int 3\<rparr>"
    by simp
  have "currentFrame (step defaults (?s\<lparr>currentFrame := 3\<rparr>) (Click 6 3)) = 0"
    unfolding run_e2
    by (simp add: step_def handleSquareClick_def startAnimation_def stopAnimation_def
        setInterval_def clearInterval_def Let_def cell_d2 playerColor_defaults)
  then show ?thesis
    using sel t f three by simp
qed

section \<open>Deselecting\<close>

lemma idle_step:
  assumes "wellformed pr s" "selectedPiece s = None" "\<not> isClick ev"
  shows "selectedPiece (step pr s ev) = None \<and> currentFrame (step pr s ev) = 0"
proof (cases ev)
  case (Click r c)
  then show ?thesis using assms(3) by (simp add: isClick_def)
next
  case (Timer h)
  then show ?thesis
    using assms(1,2) by (auto simp: step_def wellformed_def)
next
  case Mount
  then show ?thesis
    using assms(1,2) by (simp add: step_def wellformed_def)
next
  case (Loaded ps af)
  then show ?thesis
    using assms(1,2) by (simp add: step_def wellformed_def)
next
  case Destroy
  then show ?thesis
    using stop_idle[OF assms(1)] by (simp add: step_def)
qed

lemma idle_after:
  "wellformed pr s \<Longrightarrow> selectedPiece s = None \<Longrightarrow> \<forall>ev \<in> set evs. \<not> isClick ev \<Longrightarrow>
     selectedPiece (after pr s evs) = None \<and> currentFrame (after pr s evs) = 0"
proof (induction evs arbitrary: s)
  case Nil
  then show ?case by (simp add: after_def wellformed_def)
next
  case (Cons ev evs)
  have "wellformed pr (step pr s ev)"
    using Cons.prems(1) by (rule wellformed_step)
  moreover have "selectedPiece (step pr s ev) = None"
    using idle_step[of pr s ev] Cons.prems by simp
  ultimately have "selectedPiece (after pr (step pr s ev) evs) = None \<and>
      currentFrame (after pr (step pr s ev) evs) = 0"
    using Cons.prems(3) by (intro Cons.IH) simp_all
  then show ?case by (simp add: after_def)
qed

lemma stop_idle_same: 
  assumes "wellformed pr s" "selectedPiece s = None"
  shows "stopAnimation s = s"
proof -
  have "animationInterval s = None" "currentFrame s = 0"
    using assms by (simp_all add: wellformed_def)
  then show ?thesis
    using assms(2) by (cases s) (simp add: stopAnimation_def)
qed

text \<open>
  Claim C4. In a state reached by any sequence of events in which a square is selected,
  a click on that square or on an empty square leaves nothing selected, no handle held,
  no interval running and the frame index 0; the only browser call it makes is the
  \<^verbatim>\<open>clearInterval\<close> of the running interval. Afterwards timer firings change
  nothing, the frame index stays 0 through every sequence of events without a click, and
  in general it is 0 (with no interval running) in every later state in which nothing is
  selected.
\<close>

theorem click_selected_or_empty_goes_idle:
  assumes "s = run pr evs"
    and "selectedPiece s = Some sel"
    and "(r = row sel \<and> c = col sel) \<or> cell (boardState s) r c = None"
    and "s' = handleSquareClick pr s r c"
  shows "selectedPiece s' = None \<and> animationInterval s' = None \<and> timers s' = []
     \<and> currentFrame s' = 0
     \<and> (\<exists>h. timers s = [h] \<and> calls s' = calls s @ [ClearInterval h])
     \<and> after pr s' (map Timer hs) = s'
     \<and> ((\<forall>ev \<in> set evs'. \<not> isClick ev) \<longrightarrow>
          selectedPiece (after pr s' evs') = None \<and> currentFrame (after pr s' evs') = 0)
     \<and> (selectedPiece (after pr s' evs') = None \<longrightarrow>
          currentFrame (after pr s' evs') = 0 \<and> timers (after pr s' evs') = [])"
proof -
  have wf: "wellformed pr s"
    using assms(1) by (simp add: wellformed_run)
  obtain p where p: "cell (boardState s) (row sel) (col sel) = Some p" "color p = playerColor pr"
    using wf assms(2) by (auto simp: wellformed_def)
  have stop: "s' = stopAnimation s"
    using assms(2,3,4) p by (auto simp: handleSquareClick_def)
  have wf': "wellformed pr s'"
    unfolding stop using wf by (rule wellformed_stop)
  note idle = stop_idle[OF wf, folded stop]
  obtain h where h: "timers s = [h]"
    using wf assms(2) by (cases "animationInterval s") (auto simp: wellformed_def)
  have log: "calls s' = calls s @ [ClearInterval h]"
    unfolding stop using stop_calls[OF wf] h by simp
  have quiet: "after pr s' (map Timer hs) = s'"
    unfolding ticks_only using idle by simp
  have noclick: "selectedPiece (after pr s' evs') = None \<and> currentFrame (after pr s' evs') = 0"
    if "\<forall>ev \<in> set evs'. \<not> isClick ev"
    using idle_after[OF wf' _ that] idle by simp
  have "wellformed pr (after pr s' evs')"
    using wf' by (rule wellformed_after)
  then have later: "selectedPiece (after pr s' evs') = None \<longrightarrow>
      currentFrame (after pr s' evs') = 0 \<and> timers (after pr s' evs') = []"
    by (auto simp: wellformed_def)
  show ?thesis
    using idle h log quiet noclick later by blast
qed

theorem click_selected_or_empty_goes_idle_witness:
  "selectedPiece (run defaults [Mount, Click 6 4]) = Some \<lparr>row = 6, col = 4\<rparr>
   \<and> cell (boardState (run defaults [Mount, Click 6 4])) 4 4 = None
   \<and> list_all (\<lambda>ev. \<not> isClick ev) [Timer 1, Timer 1, Loaded Map.empty Map.empty]
   \<and> timers (handleSquareClick defaults (run defaults [Mount, Click 6 4]) 4 4) = []
   \<and> calls (handleSquareClick defaults (run defaults [Mount, Click 6 4]) 4 4) =
        [SetInterval 1, ClearInterval 1]
   \<and> currentFrame (after defaults (handleSquareClick defaults (run defaults [Mount, Click 6 4]) 4 4)
        [Timer 1, Timer 1, Loaded Map.empty Map.empty]) = 0"
proof -
  let ?s = "run defaults [Mount, Click 6 4]"
  let ?evs = "[Timer 1, Timer 1, Loaded Map.empty Map.empty]"
  have sel: "selectedPiece ?s = Some \<lparr>row = 6, col = 4\<rparr>"
    by (simp add: run_e2)
  have empty: "(4 = row \<lparr>row = 6, col = 4\<rparr> \<and> 4 = col \<lparr>row = 6, col = 4\<rparr>)
      \<or> cell (boardState ?s) 4 4 = None"
    by (simp add: run_e2 cell_e4)
  have nc: "\<forall>ev \<in> set ?evs. \<not> isClick ev"
    by (simp add: isClick_def)
  note th = click_selected_or_empty_goes_idle[OF refl sel empty refl, where hs = "[]" and evs' = ?evs]
  show ?thesis
    using th nc sel by (simp add: run_e2 cell_e4 isClick_def)
qed

section \<open>Clicks without effect\<close>

text \<open>
  Claim C5. In every state, a click on a square holding a piece whose colour is not
  \<open>playerColor\<close> returns the state unchanged (selection, frame index, handle and running
  interval included). In every state reached by a sequence of events in which nothing is
  selected, a click on an empty square returns the state unchanged.
\<close>

theorem clicks_without_effect:
  "(cell (boardState s) r c = Some p \<and> color p \<noteq> playerColor pr \<longrightarrow>
      handleSquareClick pr s r c = s)
   \<and> (s = run pr evs \<and> selectedPiece s = None \<and> cell (boardState s) r c = None \<longrightarrow>
      handleSquareClick pr s r c = s)"
proof -
  have "handleSquareClick pr s r c = s"
    if "s = run pr evs" "selectedPiece s = None" "cell (boardState s) r c = None"
  proof -
    have "wellformed pr s"
      using that(1) by (simp add: wellformed_run)
    then have "stopAnimation s = s"
      using that(2) by (rule stop_idle_same)
    then show ?thesis
      using that(3) by (simp add: handleSquareClick_def)
  qed
  then show ?thesis
    by (auto simp: handleSquareClick_def)
qed

lemma run_mount:
  "run defaults [Mount] = initial\<lparr>boardState := getInitialBoard\<rparr>"
  by (simp add: run_def after_def step_def)

theorem clicks_without_effect_witness:
  "cell (boardState (run defaults [Mount])) 1 4 = Some \<lparr>color = Black, ptype = Pawn\<rparr>
   \<and> color \<lparr>color = Black, ptype = Pawn\<rparr> \<noteq> playerColor defaults
   \<and> handleSquareClick defaults (run defaults [Mount]) 1 4 = run defaults [Mount]
   \<and> cell (boardState (run defaults [Mount, Click 6 4])) 1 4 = Some \<lparr>color = Black, ptype = Pawn\<rparr>
   \<and> handleSquareClick defaults (run defaults [Mount, Click 6 4]) 1 4 = run defaults [Mount, Click 6 4]
   \<and> selectedPiece (run defaults [Mount]) = None
   \<and> cell (boardState (run defaults [Mount])) 4 4 = None
   \<and> handleSquareClick defaults (run defaults [Mount]) 4 4 = run defaults [Mount]"
proof -
  let ?p = "\<lparr>color = Black, ptype = Pawn\<rparr>"
  have a: "cell (boardState (run defaults [Mount])) 1 4 = Some ?p"
    and b: "cell (boardState (run defaults [Mount, Click 6 4])) 1 4 = Some ?p"
    and c: "color ?p \<noteq> playerColor defaults"
    and d: "selectedPiece (run defaults [Mount]) = None"
    and e: "cell (boardState (run defaults [Mount])) 4 4 = None"
    by (simp_all add: run_mount run_e2 cell_e7 cell_e4 playerColor_defaults initial_def)
  show ?thesis
    using a b c d e
      clicks_without_effect[of "run defaults [Mount]" 1 4 ?p defaults "[Mount]"]
      clicks_without_effect[of "run defaults [Mount, Click 6 4]" 1 4 ?p defaults "[Mount, Click 6 4]"]
      clicks_without_effect[of "run defaults [Mount]" 4 4 ?p defaults "[Mount]"]
    by simp
qed

section \<open>The starting position and squares outside it\<close>

lemma length_rows: "line \<in> set getInitialBoard \<Longrightarrow> length line = 8"
  by (auto simp: getInitialBoard_layout)

lemma cell_outside:
  assumes "r < 0 \<or> 8 \<le> r \<or> c < 0 \<or> 8 \<le> c"
  shows "cell getInitialBoard r c = None"
proof (cases "js_nth getInitialBoard r")
  case None
  then show ?thesis by (simp add: cell_def)
next
  case (Some line)
  then have "line \<in> set getInitialBoard"
    by (auto simp: js_nth_def split: if_splits)
  then have len: "length line = 8"
    by (rule length_rows)
  have "0 \<le> r \<and> r < 8"
    using Some by (auto simp: js_nth_def getInitialBoard_layout split: if_splits)
  then have "c < 0 \<or> 8 \<le> c"
    using assms by auto
  then have "js_nth line c = None"
    using len by (auto simp: js_nth_def)
  then show ?thesis
    using Some by (simp add: cell_def)
qed

text \<open>
  Claim C10. \<open>getInitialBoard\<close> takes no argument and is the 8 by 8 starting position:
  black back row and pawns in rows 0 and 1, white pawns and back row in rows 6 and 7, the
  back row being rook, knight, bishop, queen, king, bishop, knight, rook; 32 pieces in
  all. Mounting stores it whatever the props (the size among them) are. For a square
  outside rows and columns 0..7 \<open>getPieceSprite\<close> returns \<^verbatim>\<open>null\<close>.
\<close>

theorem initial_board_is_standard:
  "getInitialBoard =
     [map bp [Rook, Knight, Bishop, Queen, King, Bishop, Knight, Rook],
      replicate 8 (bp Pawn),
      replicate 8 None, replicate 8 None, replicate 8 None, replicate 8 None,
      replicate 8 (wp Pawn),
      map wp [Rook, Knight, Bishop, Queen, King, Bishop, Knight, Rook]]
   \<and> length getInitialBoard = 8
   \<and> (\<forall>line \<in> set getInitialBoard. length line = 8)
   \<and> length (filter (\<lambda>x. x \<noteq> None) (concat getInitialBoard)) = 32
   \<and> boardState (step pr s Mount) = getInitialBoard
   \<and> (boardState s = getInitialBoard \<and> (r < 0 \<or> 8 \<le> r \<or> c < 0 \<or> 8 \<le> c) \<longrightarrow>
        getPieceSprite s r c frame selected = None)"
proof -
  have count: "length (filter (\<lambda>x. x \<noteq> None) (concat getInitialBoard)) = 32"
    by (simp add: getInitialBoard_layout wp_def bp_def eval_nat_numeral)
  have out: "getPieceSprite s r c frame selected = None"
    if "boardState s = getInitialBoard" "r < 0 \<or> 8 \<le> r \<or> c < 0 \<or> 8 \<le> c"
    using that cell_outside[of r c] by (simp add: getPieceSprite_def split: option.splits)
  have len: "length getInitialBoard = 8"
    by (simp add: getInitialBoard_layout)
  show ?thesis
    using getInitialBoard_layout len length_rows count out by (simp add: step_def)
qed

theorem initial_board_is_standard_witness:
  "boardState (run wide [Mount, Loaded sampleSprites sampleFrames]) = getInitialBoard
   \<and> ((9::int) < 0 \<or> (8::int) \<le> 9 \<or> (3::int) < 0 \<or> (8::int) \<le> 3)
   \<and> getPieceSprite (run wide [Mount, Loaded sampleSprites sampleFrames]) 9 3 0 None = None
   \<and> cell getInitialBoard 7 4 = wp King"
proof -
  let ?s = "run wide [Mount, Loaded sampleSprites sampleFrames]"
  have b: "boardState ?s = getInitialBoard"
    by (simp add: run_def after_def step_def)
  have k: "cell getInitialBoard 7 4 = wp King"
    by (simp add: board_eval)
  show ?thesis
    using initial_board_is_standard[of wide ?s 9 3 0 None] b k by simp
qed

section \<open>Which sprite a square shows\<close>

text \<open>
  Claim C6. In a state reached by any sequence of events, for a square \<open>(r, c)\<close> holding
  a piece and a frame index that is not negative: if \<open>(r, c)\<close> is the selected square and
  a non-empty frame list is known for the piece, \<open>getPieceSprite\<close> returns the frame at
  index \<open>frame mod length\<close> of the list; if the square is not the selected one, or the
  frame list is absent or empty, it returns the static sprite of the piece, and
  \<^verbatim>\<open>null\<close> when no static sprite is known (an empty string counts as none).
\<close>

theorem piece_sprite_rendering:
  assumes "s = run pr evs"
    and "cell (boardState s) r c = Some piece"
    and "0 \<le> frame"
  shows "(selected = Some \<lparr>row = r, col = c\<rparr> \<and> knownFrames s piece = Some frames \<and> frames \<noteq> [] \<longrightarrow>
          nat frame mod length frames < length frames \<and>
          getPieceSprite s r c frame selected = Some (frames ! (nat frame mod length frames)))
     \<and> (selected \<noteq> Some \<lparr>row = r, col = c\<rparr> \<or> knownFrames s piece = None \<or>
          knownFrames s piece = Some [] \<longrightarrow>
          getPieceSprite s r c frame selected =
            (case knownSprite s piece of
               None \<Rightarrow> None
             | Some f \<Rightarrow> if f = [] then None else Some f))"
proof -
  have wf: "wellformed pr s"
    using assms(1) by (simp add: wellformed_run)
  then have both: "pieceSprites s = None \<longleftrightarrow> animationFrames s = None"
    by (simp add: wellformed_def)
  have here: "(case selected of None \<Rightarrow> False | Some sel \<Rightarrow> row sel = r \<and> col sel = c)
      \<longleftrightarrow> selected = Some \<lparr>row = r, col = c\<rparr>"
    by (cases selected) auto
  have idx: "js_nth frames (js_rem frame (int (length frames))) =
      Some (frames ! (nat frame mod length frames))" if "frames \<noteq> []"
  proof -
    have "js_rem frame (int (length frames)) = int (nat frame mod length frames)"
    proof (cases "frame = 0")
      case True
      then show ?thesis by (simp add: js_rem_def)
    next
      case False
      then have "0 < frame"
        using assms(3) by simp
      then show ?thesis
        by (simp add: js_rem_def zmod_int)
    qed
    moreover have "nat frame mod length frames < length frames"
      using that by simp
    ultimately show ?thesis
      by (simp add: js_nth_def)
  qed
  have anim: "getPieceSprite s r c frame selected = Some (frames ! (nat frame mod length frames))"
    if cond: "selected = Some \<lparr>row = r, col = c\<rparr>" "knownFrames s piece = Some frames"
      "frames \<noteq> []"
  proof -
    obtain af where af: "animationFrames s = Some af"
      using cond(2) by (cases "animationFrames s") (simp_all add: knownFrames_def)
    then obtain ps where ps: "pieceSprites s = Some ps"
      using both by (cases "pieceSprites s") simp_all
    show ?thesis
      using cond af ps assms(2) idx
      by (simp add: getPieceSprite_def knownFrames_def split: option.splits)
  qed
  have static: "getPieceSprite s r c frame selected =
      (case knownSprite s piece of None \<Rightarrow> None | Some f \<Rightarrow> if f = [] then None else Some f)"
    if "selected \<noteq> Some \<lparr>row = r, col = c\<rparr> \<or> knownFrames s piece = None \<or>
        knownFrames s piece = Some []"
    using that assms(2) here
    by (auto simp: getPieceSprite_def knownFrames_def knownSprite_def staticSprite_def
        split: option.splits)
  show ?thesis
    using anim static by simp
qed

lemma run_sample:
  "run defaults sampleRun =
     \<lparr>boardState = getInitialBoard, pieceSprites = Some sampleSprites,
      animationFrames = Some sampleFrames, loading = False,
      selectedPiece = Some \<lparr>row = 6, col = 4\<rparr>, currentFrame = 5, animationInterval = Some 1,
      timers = [1], nextTimer = 2, calls = [SetInterval 1]\<rparr>"
  by (simp add: sampleRun_def controller_eval cell_Nil cell_e2 playerColor_defaults)

theorem piece_sprite_rendering_witness:
  "cell (boardState (run defaults sampleRun)) 6 4 = Some \<lparr>color = White, ptype = Pawn\<rparr>
   \<and> (0::int) \<le> 5
   \<and> knownFrames (run defaults sampleRun) \<lparr>color = White, ptype = Pawn\<rparr> =
        Some [''data:0'', ''data:1'', ''data:2'', ''data:3'']
   \<and> getPieceSprite (run defaults sampleRun) 6 4 5 (Some \<lparr>row = 6, col = 4\<rparr>) = Some ''data:1''
   \<and> getPieceSprite (run defaults sampleRun) 6 3 5 (Some \<lparr>row = 6, col = 4\<rparr>) = Some ''data:pawn''
   \<and> cell (boardState (run defaults sampleRun)) 1 4 = Some \<lparr>color = Black, ptype = Pawn\<rparr>
   \<and> getPieceSprite (run defaults sampleRun) 1 4 5 (Some \<lparr>row = 6, col = 4\<rparr>) = None"
proof -
  let ?s = "run defaults sampleRun"
  let ?w = "\<lparr>color = White, ptype = Pawn\<rparr>"
  let ?b = "\<lparr>color = Black, ptype = Pawn\<rparr>"
  let ?sel = "Some \<lparr>row = 6, col = 4\<rparr>"
  let ?fs = "[''data:0'', ''data:1'', ''data:2'', ''data:3'']"
  have e2: "cell (boardState ?s) 6 4 = Some ?w"
    and d2: "cell (boardState ?s) 6 3 = Some ?w"
    and e7: "cell (boardState ?s) 1 4 = Some ?b"
    by (simp_all add: run_sample cell_e2 cell_d2 cell_e7)
  have kf: "knownFrames ?s ?w = Some ?fs"
    and ks: "knownSprite ?s ?w = Some ''data:pawn''"
    and kb: "knownSprite ?s ?b = None"
    by (simp_all add: run_sample knownFrames_def knownSprite_def sampleFrames_def sampleSprites_def)
  have five: "(0::int) \<le> 5"
    by simp
  have "nat 5 mod length ?fs = 1"
    by simp
  then have "?fs ! (nat 5 mod length ?fs) = ''data:1''"
    by simp
  then have "getPieceSprite ?s 6 4 5 ?sel = Some ''data:1''"
    using piece_sprite_rendering[OF refl e2 five, of ?sel ?fs] kf by simp
  moreover have "getPieceSprite ?s 6 3 5 ?sel = Some ''data:pawn''"
    using piece_sprite_rendering[OF refl d2 five, of ?sel ?fs] ks by simp
  moreover have "getPieceSprite ?s 1 4 5 ?sel = None"
    using piece_sprite_rendering[OF refl e7 five, of ?sel ?fs] kb by simp
  ultimately show ?thesis
    using e2 e7 kf by simp
qed

section \<open>The canvas and the loops\<close>

lemma map_enumerate:
  "map (\<lambda>(i, p). f i p) (enumerate 0 xs) = map (\<lambda>i. f i (xs ! i)) [0..<length xs]"
  by (rule nth_equalityI) (simp_all add: nth_enumerate_eq)

lemma sized_newCanvas: "sized w h (newCanvas w h)"
  by (simp add: sized_def newCanvas_def list_all_length)

lemma sized_crop: "sized w h (crop img x y w h)"
  by (simp add: sized_def crop_def list_all_length)

lemma clearRect_all:
  assumes "sized w h cv"
  shows "clearRect 0 0 w h cv = newCanvas w h"
proof (rule nth_equalityI)
  show "length (clearRect 0 0 w h cv) = length (newCanvas w h)"
    using assms by (simp add: clearRect_def newCanvas_def sized_def)
next
  fix j
  assume "j < length (clearRect 0 0 w h cv)"
  then have j: "j < h" "j < length cv"
    using assms by (simp_all add: clearRect_def sized_def)
  then have len: "length (cv ! j) = w"
    using assms by (simp add: sized_def list_all_length)
  have "clearRect 0 0 w h cv ! j = map (\<lambda>i. None) [0..<w]"
    using j len by (simp add: clearRect_def nth_enumerate_eq map_enumerate)
  also have "\<dots> = replicate w None"
    by (simp add: map_replicate_const)
  finally show "clearRect 0 0 w h cv ! j = newCanvas w h ! j"
    using j by (simp add: newCanvas_def)
qed

lemma drawImage_blank:
  "drawImage b img sx sy w h 0 0 (newCanvas w h) = crop img sx sy w h"
proof (rule nth_equalityI)
  show "length (drawImage b img sx sy w h 0 0 (newCanvas w h)) = length (crop img sx sy w h)"
    by (simp add: drawImage_def newCanvas_def crop_def)
next
  fix j
  assume "j < length (drawImage b img sx sy w h 0 0 (newCanvas w h))"
  then have j: "j < h"
    by (simp add: drawImage_def newCanvas_def)
  have "drawImage b img sx sy w h 0 0 (newCanvas w h) ! j =
      map (\<lambda>i. pixelAt img (sx + i) (sy + j)) [0..<w]"
    using j
    by (auto simp: drawImage_def newCanvas_def nth_enumerate_eq map_enumerate split: option.splits)
  then show "drawImage b img sx sy w h 0 0 (newCanvas w h) ! j = crop img sx sy w h ! j"
    using j by (simp add: crop_def)
qed

lemma capture_crop:
  assumes "sized fw fh cv"
  shows "capture b img fw fh c r cv =
           (toDataURL b (crop img (c * fw) (r * fh) fw fh), crop img (c * fw) (r * fh) fw fh)"
  using assms by (simp add: capture_def Let_def clearRect_all drawImage_blank)

lemma splitColumns_frames:
  "sized fw fh cv \<Longrightarrow>
     \<exists>cv'. sized fw fh cv' \<and>
       splitColumns b img fw fh columns r c (cv, frames) =
         (cv', frames @ map (\<lambda>k. frameAt b img fw fh k r) [c..<columns])"
proof (induction b img fw fh columns r c "(cv, frames)" arbitrary: cv frames
    rule: splitColumns.induct)
  case (1 b img fw fh columns r c cv frames)
  show ?case
  proof (cases "c < columns")
    case True
    let ?cv = "crop img (c * fw) (r * fh) fw fh"
    have cap: "capture b img fw fh c r cv = (frameAt b img fw fh c r, ?cv)"
      using "1.prems" by (simp add: capture_crop frameAt_def)
    have "\<exists>cv'. sized fw fh cv' \<and>
        splitColumns b img fw fh columns r (Suc c) (?cv, frames @ [frameAt b img fw fh c r]) =
          (cv', (frames @ [frameAt b img fw fh c r]) @
                 map (\<lambda>k. frameAt b img fw fh k r) [Suc c..<columns])"
      using True cap by (intro "1.hyps") (simp_all add: sized_crop)
    then show ?thesis
      using True cap by (simp add: upt_conv_Cons)
  next
    case False
    then show ?thesis
      using "1.prems" by simp
  qed
qed

lemma splitRows_frames:
  "sized fw fh cv \<Longrightarrow>
     \<exists>cv'. sized fw fh cv' \<and>
       splitRows b img fw fh columns rows r (cv, frames) =
         (cv', frames @ concat (map (\<lambda>j. map (\<lambda>k. frameAt b img fw fh k j) [0..<columns])
                                  [r..<rows]))"
proof (induction b img fw fh columns rows r "(cv, frames)" arbitrary: cv frames
    rule: splitRows.induct)
  case (1 b img fw fh columns rows r cv frames)
  show ?case
  proof (cases "r < rows")
    case True
    obtain cv1 where cv1: "sized fw fh cv1"
      "splitColumns b img fw fh columns r 0 (cv, frames) =
         (cv1, frames @ map (\<lambda>k. frameAt b img fw fh k r) [0..<columns])"
      using splitColumns_frames[OF "1.prems"] by blast
    have "\<exists>cv'. sized fw fh cv' \<and>
        splitRows b img fw fh columns rows (Suc r)
          (cv1, frames @ map (\<lambda>k. frameAt b img fw fh k r) [0..<columns]) =
        (cv', (frames @ map (\<lambda>k. frameAt b img fw fh k r) [0..<columns]) @
           concat (map (\<lambda>j. map (\<lambda>k. frameAt b img fw fh k j) [0..<columns]) [Suc r..<rows]))"
      using True cv1 by (intro "1.hyps") simp_all
    then show ?thesis
      using True cv1(2) by (simp add: upt_conv_Cons)
  next
    case False
    then show ?thesis
      using "1.prems" by simp
  qed
qed

lemma columnRange_frames:
  "sized fw fh cv \<Longrightarrow>
     \<exists>cv'. sized fw fh cv' \<and>
       columnRange b img fw fh r endCol c (cv, frames) =
         (cv', frames @ map (\<lambda>k. frameAt b img fw fh k r) [c..<Suc endCol])"
proof (induction b img fw fh r endCol c "(cv, frames)" arbitrary: cv frames
    rule: columnRange.induct)
  case (1 b img fw fh r endCol c cv frames)
  show ?case
  proof (cases "c \<le> endCol")
    case True
    let ?cv = "crop img (c * fw) (r * fh) fw fh"
    have cap: "capture b img fw fh c r cv = (frameAt b img fw fh c r, ?cv)"
      using "1.prems" by (simp add: capture_crop frameAt_def)
    have "\<exists>cv'. sized fw fh cv' \<and>
        columnRange b img fw fh r endCol (Suc c) (?cv, frames @ [frameAt b img fw fh c r]) =
          (cv', (frames @ [frameAt b img fw fh c r]) @
                 map (\<lambda>k. frameAt b img fw fh k r) [Suc c..<Suc endCol])"
      using True cap by (intro "1.hyps") (simp_all add: sized_crop)
    moreover have "[c..<Suc endCol] = c # [Suc c..<Suc endCol]"
      using True by (simp add: upt_conv_Cons)
    ultimately show ?thesis
      using True cap by simp
  next
    case False
    then show ?thesis
      using "1.prems" by simp
  qed
qed

lemma nth_row_major:
  "r < rows \<Longrightarrow> c < columns \<Longrightarrow>
     concat (map (\<lambda>j. map (\<lambda>k. f k j) [0..<columns]) [0..<rows]) ! (r * columns + c) = f c r"
proof (induction rows)
  case 0
  then show ?case by simp
next
  case (Suc rows)
  let ?pre = "concat (map (\<lambda>j. map (\<lambda>k. f k j) [0..<columns]) [0..<rows])"
  have len: "length ?pre = rows * columns"
    by (induction rows) simp_all
  show ?case
  proof (cases "r < rows")
    case True
    then have "r * columns + c < rows * columns"
    proof -
      have "r * columns + c < r * columns + columns"
        using Suc.prems(2) by simp
      also have "\<dots> = Suc r * columns"
        by simp
      also have "\<dots> \<le> rows * columns"
        using True by (intro mult_le_mono1) simp
      finally show ?thesis .
    qed
    then show ?thesis
      using True Suc.prems(2) Suc.IH len by (simp add: nth_append)
  next
    case False
    then have "r = rows"
      using Suc.prems(1) by simp
    then show ?thesis
      using Suc.prems(2) len by (simp add: nth_append)
  qed
qed

lemma length_row_major:
  "length (concat (map (\<lambda>j. map (\<lambda>k. f k j) [0..<columns]) [0..<rows])) = columns * rows"
  by (induction rows) simp_all

lemma loadImage_ok:
  "respond b (length (requested b)) url = Some img \<Longrightarrow>
     loadImage b url = (Inr img, b\<lparr>requested := requested b @ [url]\<rparr>)"
  by (simp add: loadImage_def)

lemma loadImage_fail:
  "respond b (length (requested b)) url = None \<Longrightarrow>
     loadImage b url = (Inl (LoadError url), b\<lparr>requested := requested b @ [url]\<rparr>)"
  by (simp add: loadImage_def)

section \<open>Splitting a sheet\<close>

text \<open>
  Claim C2. When the image at the URL loads, with width \<open>w\<close> and height \<open>h\<close>, and a 2D
  context is available, then for all \<open>columns, rows \<ge> 1\<close> \<open>splitSpriteSheet\<close> returns
  exactly \<open>columns * rows\<close> frames in row-major order: the frame at index
  \<open>r * columns + c\<close> is the data URL of the crop of the rectangle
  \<open>[c * fw, r * fh, fw, fh]\<close>, where \<open>fw = w div columns\<close> and \<open>fh = h div rows\<close>.
\<close>

theorem splitSpriteSheet_row_major:
  assumes "respond b (length (requested b)) url = Some img"
    and "context2d b"
    and "1 \<le> columns" and "1 \<le> rows"
    and "fw = width img div columns" and "fh = height img div rows"
  shows "\<exists>frames. fst (splitSpriteSheet b url columns rows) = Inr frames
     \<and> length frames = columns * rows
     \<and> frames = concat (map (\<lambda>r. map (\<lambda>c. toDataURL b (crop img (c * fw) (r * fh) fw fh))
                                     [0..<columns]) [0..<rows])
     \<and> (\<forall>r < rows. \<forall>c < columns.
          frames ! (r * columns + c) = toDataURL b (crop img (c * fw) (r * fh) fw fh))"
proof -
  let ?b = "b\<lparr>requested := requested b @ [url]\<rparr>"
  let ?f = "\<lambda>c r. toDataURL b (crop img (c * fw) (r * fh) fw fh)"
  let ?frames = "concat (map (\<lambda>r. map (\<lambda>c. ?f c r) [0..<columns]) [0..<rows])"
  obtain cv' where "splitRows ?b img fw fh columns rows 0 (newCanvas fw fh, []) =
      (cv', [] @ concat (map (\<lambda>j. map (\<lambda>k. frameAt ?b img fw fh k j) [0..<columns]) [0..<rows]))"
    using splitRows_frames[OF sized_newCanvas, of fw fh ?b img columns rows 0 "[]"] by blast
  then have "snd (splitRows ?b img fw fh columns rows 0 (newCanvas fw fh, [])) = ?frames"
    by (simp add: frameAt_def)
  then have res: "fst (splitSpriteSheet b url columns rows) = Inr ?frames"
    using assms(2,5,6) by (simp add: splitSpriteSheet_def loadImage_ok[OF assms(1)] Let_def)
  have "\<forall>r < rows. \<forall>c < columns. ?frames ! (r * columns + c) = ?f c r"
    using nth_row_major[of _ rows _ columns ?f] by blast
  then show ?thesis
    using res length_row_major[of ?f columns rows] by blast
qed

lemma sample_load: "respond sampleBrowser (length (requested sampleBrowser)) ''/sheet.png'' = Some sampleImage"
  by (simp add: sampleBrowser_def)

lemma sample_ctx: "context2d sampleBrowser"
  by (simp add: sampleBrowser_def)

lemma sample_frame:
  "toDataURL sampleBrowser (crop sampleImage 0 0 2 1) = ''data:ab/''"
  "toDataURL sampleBrowser (crop sampleImage 2 0 2 1) = ''data:cd/''"
  "toDataURL sampleBrowser (crop sampleImage 0 1 2 1) = ''data:ef/''"
  "toDataURL sampleBrowser (crop sampleImage 2 1 2 1) = ''data:gh/''"
  "toDataURL sampleBrowser (crop sampleImage 1 1 1 1) = ''data:f/''"
  "toDataURL sampleBrowser (crop sampleImage 2 1 1 1) = ''data:g/''"
  by (simp_all add: sampleBrowser_def sampleEncode_def crop_def pixelAt_def sampleImage_def
      upt_conv_Cons)

theorem splitSpriteSheet_row_major_witness:
  "respond sampleBrowser (length (requested sampleBrowser)) ''/sheet.png'' = Some sampleImage
   \<and> context2d sampleBrowser \<and> (1::nat) \<le> 2
   \<and> fst (splitSpriteSheet sampleBrowser ''/sheet.png'' 2 2) =
        Inr [''data:ab/'', ''data:cd/'', ''data:ef/'', ''data:gh/'']"
proof -
  have one: "(1::nat) \<le> 2"
    by simp
  have w: "2 = width sampleImage div 2" and h: "1 = height sampleImage div 2"
    by (simp_all add: sampleImage_def)
  have "[0..<2] = [0, 1::nat]"
    by (simp add: upt_conv_Cons)
  then have "concat (map (\<lambda>r. map (\<lambda>c. toDataURL sampleBrowser (crop sampleImage (c * 2) (r * 1) 2 1))
      [0..<2]) [0..<2]) = [''data:ab/'', ''data:cd/'', ''data:ef/'', ''data:gh/'']"
    by (simp add: sample_frame del: One_nat_def)
  then show ?thesis
    using splitSpriteSheet_row_major[OF sample_load sample_ctx one one w h] sample_load sample_ctx
    by auto
qed

section \<open>Extracting a range of columns\<close>

text \<open>
  Claim C7. When the image loads and a 2D context is available, then for every row and
  all \<open>startCol \<le> endCol\<close> \<open>extractAnimationFrames\<close> returns exactly
  \<open>endCol - startCol + 1\<close> frames, the \<open>k\<close>-th being the data URL of the crop of column
  \<open>startCol + k\<close> of the given row: one frame for each column of the inclusive range,
  in increasing order.
\<close>

theorem extractAnimationFrames_column_range:
  assumes "respond b (length (requested b)) url = Some img"
    and "context2d b"
    and "startCol \<le> endCol"
  shows "\<exists>frames. fst (extractAnimationFrames b url r startCol endCol fw fh) = Inr frames
     \<and> length frames = endCol - startCol + 1
     \<and> frames = map (\<lambda>c. toDataURL b (crop img (c * fw) (r * fh) fw fh))
                   [startCol..<Suc endCol]
     \<and> (\<forall>k \<le> endCol - startCol.
          frames ! k = toDataURL b (crop img ((startCol + k) * fw) (r * fh) fw fh))"
proof -
  let ?b = "b\<lparr>requested := requested b @ [url]\<rparr>"
  let ?f = "\<lambda>c. toDataURL b (crop img (c * fw) (r * fh) fw fh)"
  let ?frames = "map ?f [startCol..<Suc endCol]"
  obtain cv' where "columnRange ?b img fw fh r endCol startCol (newCanvas fw fh, []) =
      (cv', [] @ map (\<lambda>k. frameAt ?b img fw fh k r) [startCol..<Suc endCol])"
    using columnRange_frames[OF sized_newCanvas, of fw fh ?b img r endCol startCol "[]"]
    by blast
  then have "snd (columnRange ?b img fw fh r endCol startCol (newCanvas fw fh, [])) = ?frames"
    by (simp add: frameAt_def)
  then have res: "fst (extractAnimationFrames b url r startCol endCol fw fh) = Inr ?frames"
    using assms(2) by (simp add: extractAnimationFrames_def loadImage_ok[OF assms(1)] Let_def)
  have len: "length ?frames = endCol - startCol + 1"
    using assms(3) by simp
  have "\<forall>k \<le> endCol - startCol. ?frames ! k = ?f (startCol + k)"
  proof (intro allI impI)
    fix k
    assume "k \<le> endCol - startCol"
    then have "k < length [startCol..<Suc endCol]"
      using assms(3) by simp
    then show "?frames ! k = ?f (startCol + k)"
      by (simp only: nth_map nth_upt length_upt)
  qed
  then show ?thesis
    using res len by blast
qed

theorem extractAnimationFrames_column_range_witness:
  "respond sampleBrowser (length (requested sampleBrowser)) ''/sheet.png'' = Some sampleImage
   \<and> context2d sampleBrowser \<and> (1::nat) \<le> 2
   \<and> fst (extractAnimationFrames sampleBrowser ''/sheet.png'' 1 1 2 1 1) =
        Inr [''data:f/'', ''data:g/'']"
proof -
  have le: "(1::nat) \<le> 2"
    by simp
  have "[1..<Suc 2] = [1, 2::nat]"
    by (simp add: upt_conv_Cons)
  then have "map (\<lambda>c. toDataURL sampleBrowser (crop sampleImage (c * 1) (1 * 1) 1 1)) [1..<Suc 2] =
      [''data:f/'', ''data:g/'']"
    by (simp add: sample_frame del: One_nat_def)
  then show ?thesis
    using extractAnimationFrames_column_range[OF sample_load sample_ctx le, of 1 1 1]
      sample_load sample_ctx
    by auto
qed

section \<open>Load errors and render errors\<close>

lemma loadsThenRenders_extractSprite:
  "loadsThenRenders b url (extractSprite b url colm r fw fh)"
  by (cases "respond b (length (requested b)) url")
    (simp_all add: loadsThenRenders_def extractSprite_def loadImage_def Let_def)

lemma loadsThenRenders_splitSpriteSheet:
  "loadsThenRenders b url (splitSpriteSheet b url columns rows)"
  by (cases "respond b (length (requested b)) url")
    (simp_all add: loadsThenRenders_def splitSpriteSheet_def loadImage_def Let_def)

lemma loadsThenRenders_extractAnimationFrames:
  "loadsThenRenders b url (extractAnimationFrames b url r startCol endCol fw fh)"
  by (cases "respond b (length (requested b)) url")
    (simp_all add: loadsThenRenders_def extractAnimationFrames_def loadImage_def Let_def)

text \<open>
  Claim C9 says that every extraction operation fails with a \<open>RenderError\<close> exactly when
  no 2D context can be obtained and succeeds otherwise. The operations take a URL and
  load the image before they ask for a context: in a browser where the request fails
  and no context is available \<open>extractSprite\<close> fails with the \<open>LoadError\<close>, not with
  a \<open>RenderError\<close>, and where a context is available it fails all the same.
\<close>

theorem render_error_iff_no_context_counterexample:
  "\<not> context2d offline
   \<and> fst (extractSprite offline ''/assets/pieces/pieces.webp'' 0 0 16 16) =
        Inl (LoadError ''/assets/pieces/pieces.webp'')
   \<and> fst (extractSprite offline ''/assets/pieces/pieces.webp'' 0 0 16 16) \<noteq> Inl RenderError
   \<and> context2d (offline\<lparr>context2d := True\<rparr>)
   \<and> fst (extractSprite (offline\<lparr>context2d := True\<rparr>) ''/assets/pieces/pieces.webp'' 0 0 16 16) =
        Inl (LoadError ''/assets/pieces/pieces.webp'')"
  by (simp add: offline_def extractSprite_def loadImage_def)

text \<open>
  Claim C9 as amended. \<open>loadImage\<close> issues exactly one request and fails with a
  \<open>LoadError\<close> exactly when that request fails (fetch or decoding); nothing is requested
  again. Each of \<open>extractSprite\<close>, \<open>splitSpriteSheet\<close> and \<open>extractAnimationFrames\<close>
  issues exactly one request; it fails with the \<open>LoadError\<close> when the load fails; when
  the image loads it fails with a \<open>RenderError\<close> exactly when no 2D context is available
  and succeeds otherwise.
\<close>

theorem load_error_then_render_error:
  "(fst (loadImage b url) = Inl (LoadError url) \<longleftrightarrow> respond b (length (requested b)) url = None)
   \<and> (fst (loadImage b url) = Inr img \<longleftrightarrow> respond b (length (requested b)) url = Some img)
   \<and> requested (snd (loadImage b url)) = requested b @ [url]
   \<and> loadsThenRenders b url (extractSprite b url colm r fw fh)
   \<and> loadsThenRenders b url (splitSpriteSheet b url columns rows)
   \<and> loadsThenRenders b url (extractAnimationFrames b url r startCol endCol fw fh)"
proof -
  have "fst (loadImage b url) = Inl (LoadError url) \<longleftrightarrow> respond b (length (requested b)) url = None"
    and "fst (loadImage b url) = Inr img \<longleftrightarrow> respond b (length (requested b)) url = Some img"
    and "requested (snd (loadImage b url)) = requested b @ [url]"
    by (simp_all add: loadImage_def split: option.splits)
  then show ?thesis
    using loadsThenRenders_extractSprite loadsThenRenders_splitSpriteSheet
      loadsThenRenders_extractAnimationFrames
    by blast
qed

theorem load_error_then_render_error_witness:
  "respond sampleBrowser (length (requested sampleBrowser)) ''/sheet.png'' = Some sampleImage
   \<and> fst (loadImage sampleBrowser ''/sheet.png'') = Inr sampleImage
   \<and> context2d sampleBrowser
   \<and> \<not> isl (fst (extractSprite sampleBrowser ''/sheet.png'' 1 0 2 1))
   \<and> requested (snd (extractSprite sampleBrowser ''/sheet.png'' 1 0 2 1)) = [''/sheet.png'']
   \<and> \<not> context2d (sampleBrowser\<lparr>context2d := False\<rparr>)
   \<and> fst (splitSpriteSheet (sampleBrowser\<lparr>context2d := False\<rparr>) ''/sheet.png'' 2 2) = Inl RenderError
   \<and> respond sampleBrowser (length (requested sampleBrowser)) ''/none.png'' = None
   \<and> fst (extractAnimationFrames sampleBrowser ''/none.png'' 1 1 2 1 1) = Inl (LoadError ''/none.png'')"
proof -
  let ?nc = "sampleBrowser\<lparr>context2d := False\<rparr>"
  have a: "respond sampleBrowser (length (requested sampleBrowser)) ''/sheet.png'' = Some sampleImage"
    and b: "context2d sampleBrowser"
    and c: "respond ?nc (length (requested ?nc)) ''/sheet.png'' = Some sampleImage"
    and d: "\<not> context2d ?nc"
    and e: "respond sampleBrowser (length (requested sampleBrowser)) ''/none.png'' = None"
    and f: "requested sampleBrowser = []"
    by (simp_all add: sampleBrowser_def)
  show ?thesis
    using a b c d e f
      load_error_then_render_error[of sampleBrowser "''/sheet.png''" sampleImage 1 0 2 1 2 2 1 2]
      load_error_then_render_error[of ?nc "''/sheet.png''" sampleImage 1 0 2 1 2 2 1 2]
      load_error_then_render_error[of sampleBrowser "''/none.png''" sampleImage 1 1 1 1 2 2 1 2]
    by (simp add: loadsThenRenders_def)
qed

section \<open>Missing positions\<close>

lemma all_piece_types: "t \<in> set [King, Queen, Bishop, Knight, Rook, Pawn]"
  by (cases t) simp_all

lemma all_colors: "c \<in> set [White, Black, Green, Blue]"
  by (cases c) simp_all

lemma extractFields_ok:
  "sized fw fh cv \<Longrightarrow> \<forall>t \<in> set ts. cc t \<noteq> None \<Longrightarrow>
     \<exists>cv' m'. sized fw fh cv' \<and> extractFields b img fw fh cc ts (cv, m) = Inr (cv', m') \<and>
       (\<forall>t. m' t = (if t \<in> set ts then map_option (spriteOf b img fw fh) (cc t) else m t))"
proof (induction ts arbitrary: cv m)
  case Nil
  then show ?case by simp
next
  case (Cons t ts)
  obtain pos where pos: "cc t = Some pos"
    using Cons.prems(2) by auto
  let ?cv = "crop img (column pos * fw) (sheet_row pos * fh) fw fh"
  have one: "extractSingle b img fw fh pos cv = (spriteOf b img fw fh pos, ?cv)"
    using Cons.prems(1) by (simp add: extractSingle_def capture_crop spriteOf_def)
  have later: "\<forall>u \<in> set ts. cc u \<noteq> None"
    using Cons.prems(2) by simp
  have "\<exists>cv' m'. sized fw fh cv' \<and>
      extractFields b img fw fh cc ts (?cv, m(t \<mapsto> spriteOf b img fw fh pos)) = Inr (cv', m') \<and>
      (\<forall>u. m' u = (if u \<in> set ts then map_option (spriteOf b img fw fh) (cc u)
                    else (m(t \<mapsto> spriteOf b img fw fh pos)) u))"
    by (rule Cons.IH[OF sized_crop later])
  then obtain cv' m' where rest: "sized fw fh cv'"
    "extractFields b img fw fh cc ts (?cv, m(t \<mapsto> spriteOf b img fw fh pos)) = Inr (cv', m')"
    "\<forall>u. m' u = (if u \<in> set ts then map_option (spriteOf b img fw fh) (cc u)
                  else (m(t \<mapsto> spriteOf b img fw fh pos)) u)"
    by blast
  have "extractFields b img fw fh cc (t # ts) (cv, m) = Inr (cv', m')"
    using pos one rest(2) by simp
  moreover have "\<forall>u. m' u = (if u \<in> set (t # ts) then map_option (spriteOf b img fw fh) (cc u)
                               else m u)"
    using rest(3) pos by auto
  ultimately show ?case
    using rest(1) by blast
qed

lemma extractFields_missing:
  "\<exists>t \<in> set ts. cc t = None \<Longrightarrow> extractFields b img fw fh cc ts (cv, m) = Inl TypeError"
proof (induction ts arbitrary: cv m)
  case Nil
  then show ?case by simp
next
  case (Cons t ts)
  show ?case
  proof (cases "cc t")
    case None
    then show ?thesis by simp
  next
    case (Some pos)
    then have "\<exists>u \<in> set ts. cc u = None"
      using Cons.prems by auto
    then show ?thesis
      using Some Cons.IH by (simp add: Let_def split: prod.splits)
  qed
qed

lemma extractColorSet_complete:
  assumes "sized fw fh cv" "complete (Some cc)"
  shows "\<exists>cv'. sized fw fh cv' \<and>
           extractColorSet b img fw fh (Some cc) cv =
             Inr (cv', \<lambda>t. map_option (spriteOf b img fw fh) (cc t))"
proof -
  have "\<forall>t \<in> set [King, Queen, Bishop, Knight, Rook, Pawn]. cc t \<noteq> None"
    using assms(2) by (simp add: complete_def)
  then obtain cv' m' where r: "sized fw fh cv'"
    "extractFields b img fw fh cc [King, Queen, Bishop, Knight, Rook, Pawn] (cv, Map.empty) =
       Inr (cv', m')"
    "\<forall>t. m' t = (if t \<in> set [King, Queen, Bishop, Knight, Rook, Pawn]
                  then map_option (spriteOf b img fw fh) (cc t) else Map.empty t)"
    using extractFields_ok[OF assms(1), of "[King, Queen, Bishop, Knight, Rook, Pawn]" cc b img
        Map.empty]
    by blast
  have "m' = (\<lambda>t. map_option (spriteOf b img fw fh) (cc t))"
    using r(3) all_piece_types by (intro ext) simp
  then show ?thesis
    using r(1,2) by (simp add: extractColorSet_def)
qed

lemma extractColorSet_incomplete:
  assumes "\<not> complete colorConfig"
  shows "extractColorSet b img fw fh colorConfig cv = Inl TypeError"
proof (cases colorConfig)
  case None
  then show ?thesis by (simp add: extractColorSet_def)
next
  case (Some cc)
  then have "\<exists>t \<in> set [King, Queen, Bishop, Knight, Rook, Pawn]. cc t = None"
    using assms by (auto simp: complete_def)
  then show ?thesis
    using Some extractFields_missing[of "[King, Queen, Bishop, Knight, Rook, Pawn]" cc]
    by (simp only: extractColorSet_def option.case)
qed

lemma required_cases:
  assumes "sized fw fh cv"
  shows "(complete oc \<and> (\<exists>cv'. sized fw fh cv' \<and>
            extractColorSet b img fw fh oc cv = Inr (cv', spritesOf b img fw fh oc)))
       \<or> (\<not> complete oc \<and> extractColorSet b img fw fh oc cv = Inl TypeError)"
proof (cases "complete oc")
  case True
  then obtain cc where "oc = Some cc"
    by (cases oc) (simp_all add: complete_def)
  then show ?thesis
    using True extractColorSet_complete[OF assms, of cc b img] by (simp add: spritesOf_def)
next
  case False
  then show ?thesis
    by (simp add: extractColorSet_incomplete)
qed

lemma optional_cases:
  assumes "sized fw fh cv"
  shows "((oc = None \<or> complete oc) \<and> (\<exists>cv'. sized fw fh cv' \<and>
            optionalColorSet b img fw fh oc cv = Inr (cv', spritesOf b img fw fh oc)))
       \<or> (oc \<noteq> None \<and> \<not> complete oc \<and> optionalColorSet b img fw fh oc cv = Inl TypeError)"
proof (cases oc)
  case None
  then show ?thesis
    using assms by (simp add: optionalColorSet_def spritesOf_def)
next
  case (Some cc)
  then show ?thesis
    using required_cases[OF assms, of oc b img] by (auto simp: optionalColorSet_def)
qed

lemma loadChessPiecesWithConfig_result:
  assumes "respond b (length (requested b)) url = Some img" "context2d b"
  shows "(complete (config White) \<and> complete (config Black) \<and>
          (config Green = None \<or> complete (config Green)) \<and>
          (config Blue = None \<or> complete (config Blue)) \<and>
          fst (loadChessPiecesWithConfig b url config fw fh) =
            Inr (\<lambda>c. Some (spritesOf b img fw fh (config c))))
       \<or> (\<not> (complete (config White) \<and> complete (config Black) \<and>
          (config Green = None \<or> complete (config Green)) \<and>
          (config Blue = None \<or> complete (config Blue))) \<and>
          fst (loadChessPiecesWithConfig b url config fw fh) = Inl TypeError)"
proof -
  let ?b = "b\<lparr>requested := requested b @ [url]\<rparr>"
  have "spriteOf ?b img fw fh = spriteOf b img fw fh"
    by (intro ext) (simp add: spriteOf_def)
  then have sp: "spritesOf ?b img fw fh = spritesOf b img fw fh"
    by (intro ext) (simp add: spritesOf_def split: option.splits)
  have head: "loadChessPiecesWithConfig b url config fw fh =
      (case extractColorSet ?b img fw fh (config White) (newCanvas fw fh) of
         Inl e \<Rightarrow> (Inl e, ?b)
       | Inr (cv1, white) \<Rightarrow>
      (case extractColorSet ?b img fw fh (config Black) cv1 of
         Inl e \<Rightarrow> (Inl e, ?b)
       | Inr (cv2, black) \<Rightarrow>
      (case optionalColorSet ?b img fw fh (config Green) cv2 of
         Inl e \<Rightarrow> (Inl e, ?b)
       | Inr (cv3, green) \<Rightarrow>
      (case optionalColorSet ?b img fw fh (config Blue) cv3 of
         Inl e \<Rightarrow> (Inl e, ?b)
       | Inr (cv4, blue) \<Rightarrow>
           (Inr [White \<mapsto> white, Black \<mapsto> black, Green \<mapsto> green, Blue \<mapsto> blue], ?b)))))"
    using assms(2) by (simp add: loadChessPiecesWithConfig_def loadImage_ok[OF assms(1)] Let_def)
  have table: "[White \<mapsto> spritesOf b img fw fh (config White),
      Black \<mapsto> spritesOf b img fw fh (config Black),
      Green \<mapsto> spritesOf b img fw fh (config Green),
      Blue \<mapsto> spritesOf b img fw fh (config Blue)] =
      (\<lambda>c. Some (spritesOf b img fw fh (config c)))"
  proof
    fix c
    show "[White \<mapsto> spritesOf b img fw fh (config White),
      Black \<mapsto> spritesOf b img fw fh (config Black),
      Green \<mapsto> spritesOf b img fw fh (config Green),
      Blue \<mapsto> spritesOf b img fw fh (config Blue)] c = Some (spritesOf b img fw fh (config c))"
      by (cases c) simp_all
  qed
  note req = required_cases[where b = ?b and img = img and fw = fw and fh = fh]
  note opt = optional_cases[where b = ?b and img = img and fw = fw and fh = fh]
  consider (w) "\<not> complete (config White)"
    | (bl) "complete (config White)" "\<not> complete (config Black)"
    | (g) "complete (config White)" "complete (config Black)"
        "config Green \<noteq> None" "\<not> complete (config Green)"
    | (bu) "complete (config White)" "complete (config Black)"
        "config Green = None \<or> complete (config Green)"
        "config Blue \<noteq> None" "\<not> complete (config Blue)"
    | (ok) "complete (config White)" "complete (config Black)"
        "config Green = None \<or> complete (config Green)"
        "config Blue = None \<or> complete (config Blue)"
    by argo
  then show ?thesis
  proof cases
    case w
    then show ?thesis
      using req[where oc = "config White", OF sized_newCanvas]
      by (auto simp: head)
  next
    case bl
    obtain cv1 where c1: "sized fw fh cv1"
      "extractColorSet ?b img fw fh (config White) (newCanvas fw fh) =
         Inr (cv1, spritesOf ?b img fw fh (config White))"
      using bl(1) req[where oc = "config White", OF sized_newCanvas] by auto
    show ?thesis
      using bl c1(2) req[where oc = "config Black", OF c1(1)]
      by (auto simp: head)
  next
    case g
    obtain cv1 where c1: "sized fw fh cv1"
      "extractColorSet ?b img fw fh (config White) (newCanvas fw fh) =
         Inr (cv1, spritesOf ?b img fw fh (config White))"
      using g(1) req[where oc = "config White", OF sized_newCanvas] by auto
    obtain cv2 where c2: "sized fw fh cv2"
      "extractColorSet ?b img fw fh (config Black) cv1 =
         Inr (cv2, spritesOf ?b img fw fh (config Black))"
      using g(2) req[where oc = "config Black", OF c1(1)] by auto
    show ?thesis
      using g c1(2) c2(2) opt[where oc = "config Green", OF c2(1)]
      by (auto simp: head)
  next
    case bu
    obtain cv1 where c1: "sized fw fh cv1"
      "extractColorSet ?b img fw fh (config White) (newCanvas fw fh) =
         Inr (cv1, spritesOf ?b img fw fh (config White))"
      using bu(1) req[where oc = "config White", OF sized_newCanvas] by auto
    obtain cv2 where c2: "sized fw fh cv2"
      "extractColorSet ?b img fw fh (config Black) cv1 =
         Inr (cv2, spritesOf ?b img fw fh (config Black))"
      using bu(2) req[where oc = "config Black", OF c1(1)] by auto
    obtain cv3 where c3: "sized fw fh cv3"
      "optionalColorSet ?b img fw fh (config Green) cv2 =
         Inr (cv3, spritesOf ?b img fw fh (config Green))"
      using bu(3) opt[where oc = "config Green", OF c2(1)] by auto
    show ?thesis
      using bu c1(2) c2(2) c3(2) opt[where oc = "config Blue", OF c3(1)]
      by (auto simp: head)
  next
    case ok
    obtain cv1 where c1: "sized fw fh cv1"
      "extractColorSet ?b img fw fh (config White) (newCanvas fw fh) =
         Inr (cv1, spritesOf ?b img fw fh (config White))"
      using ok(1) req[where oc = "config White", OF sized_newCanvas] by auto
    obtain cv2 where c2: "sized fw fh cv2"
      "extractColorSet ?b img fw fh (config Black) cv1 =
         Inr (cv2, spritesOf ?b img fw fh (config Black))"
      using ok(2) req[where oc = "config Black", OF c1(1)] by auto
    obtain cv3 where c3: "sized fw fh cv3"
      "optionalColorSet ?b img fw fh (config Green) cv2 =
         Inr (cv3, spritesOf ?b img fw fh (config Green))"
      using ok(3) opt[where oc = "config Green", OF c2(1)] by auto
    obtain cv4 where c4: "sized fw fh cv4"
      "optionalColorSet ?b img fw fh (config Blue) cv3 =
         Inr (cv4, spritesOf ?b img fw fh (config Blue))"
      using ok(4) opt[where oc = "config Blue", OF c3(1)] by auto
    have "fst (loadChessPiecesWithConfig b url config fw fh) =
        Inr (\<lambda>c. Some (spritesOf b img fw fh (config c)))"
      using table by (simp add: head c1(2) c2(2) c3(2) c4(2) sp)
    then show ?thesis
      using ok by simp
  qed
qed

lemma extractFramesForPiece_strip:
  assumes "sized CHESS_SPRITE_SIZE CHESS_SPRITE_SIZE cv"
  shows "\<exists>cv'. sized CHESS_SPRITE_SIZE CHESS_SPRITE_SIZE cv' \<and>
           extractFramesForPiece b img (sheet_row pos) (startColumn anim) (endColumn anim) cv =
             (cv', stripOf b img anim pos)"
  using columnRange_frames[OF assms, of b img "sheet_row pos" "endColumn anim" "startColumn anim" "[]"]
  by (simp add: extractFramesForPiece_def stripOf_def frameAt_def)

lemma pieceTypesLoop_result:
  "sized CHESS_SPRITE_SIZE CHESS_SPRITE_SIZE cv \<Longrightarrow>
     \<exists>cv' result'. sized CHESS_SPRITE_SIZE CHESS_SPRITE_SIZE cv' \<and>
       pieceTypesLoop b img cc anim colour ts (cv, result) = (cv', result') \<and>
       (\<forall>c t. result' c t =
          (if c = colour \<and> t \<in> set ts
           then (case cc t of None \<Rightarrow> result c t | Some pos \<Rightarrow> Some (stripOf b img anim pos))
           else result c t))"
proof (induction ts arbitrary: cv result)
  case Nil
  then show ?case by simp
next
  case (Cons t ts)
  show ?case
  proof (cases "cc t")
    case None
    obtain cv' result' where r: "sized CHESS_SPRITE_SIZE CHESS_SPRITE_SIZE cv'"
      "pieceTypesLoop b img cc anim colour ts (cv, result) = (cv', result')"
      "\<forall>c u. result' c u =
          (if c = colour \<and> u \<in> set ts
           then (case cc u of None \<Rightarrow> result c u | Some pos \<Rightarrow> Some (stripOf b img anim pos))
           else result c u)"
      using Cons.IH[OF Cons.prems] by blast
    have "\<forall>c u. result' c u =
          (if c = colour \<and> u \<in> set (t # ts)
           then (case cc u of None \<Rightarrow> result c u | Some pos \<Rightarrow> Some (stripOf b img anim pos))
           else result c u)"
      using r(3) None by auto
    then show ?thesis
      using r(1,2) None by auto
  next
    case (Some pos)
    let ?result = "result(colour := (result colour)(t \<mapsto> stripOf b img anim pos))"
    obtain cv1 where c1: "sized CHESS_SPRITE_SIZE CHESS_SPRITE_SIZE cv1"
      "extractFramesForPiece b img (sheet_row pos) (startColumn anim) (endColumn anim) cv =
         (cv1, stripOf b img anim pos)"
      using extractFramesForPiece_strip[OF Cons.prems] by blast
    have "\<exists>cv' result'. sized CHESS_SPRITE_SIZE CHESS_SPRITE_SIZE cv' \<and>
       pieceTypesLoop b img cc anim colour ts (cv1, ?result) = (cv', result') \<and>
       (\<forall>c u. result' c u =
          (if c = colour \<and> u \<in> set ts
           then (case cc u of None \<Rightarrow> ?result c u | Some pos \<Rightarrow> Some (stripOf b img anim pos))
           else ?result c u))"
      by (rule Cons.IH[OF c1(1)])
    then obtain cv' result' where r: "sized CHESS_SPRITE_SIZE CHESS_SPRITE_SIZE cv'"
      "pieceTypesLoop b img cc anim colour ts (cv1, ?result) = (cv', result')"
      "\<forall>c u. result' c u =
          (if c = colour \<and> u \<in> set ts
           then (case cc u of None \<Rightarrow> ?result c u | Some pos \<Rightarrow> Some (stripOf b img anim pos))
           else ?result c u)"
      by blast
    have "\<forall>c u. result' c u =
          (if c = colour \<and> u \<in> set (t # ts)
           then (case cc u of None \<Rightarrow> result c u | Some pos \<Rightarrow> Some (stripOf b img anim pos))
           else result c u)"
      using r(3) Some by (auto split: option.splits)
    moreover have "pieceTypesLoop b img cc anim colour (t # ts) (cv, result) = (cv', result')"
      using Some c1(2) r(2) by simp
    ultimately show ?thesis
      using r(1) by blast
  qed
qed

lemma colorsLoop_result:
  "sized CHESS_SPRITE_SIZE CHESS_SPRITE_SIZE cv \<Longrightarrow>
     \<exists>cv' result'. sized CHESS_SPRITE_SIZE CHESS_SPRITE_SIZE cv' \<and>
       colorsLoop b img config animConfig cs (cv, result) = (cv', result') \<and>
       (\<forall>c t. result' c t =
          (if c \<in> set cs
           then (case config c of
                   None \<Rightarrow> result c t
                 | Some cc \<Rightarrow>
                     (case cc t of
                        None \<Rightarrow> result c t
                      | Some pos \<Rightarrow> Some (stripOf b img (animConfig c) pos)))
           else result c t))"
proof (induction cs arbitrary: cv result)
  case Nil
  then show ?case by simp
next
  case (Cons c0 cs)
  let ?spec = "\<lambda>cs (result :: animation_table) (result' :: animation_table). \<forall>c t. result' c t =
          (if c \<in> set cs
           then (case config c of
                   None \<Rightarrow> result c t
                 | Some cc \<Rightarrow>
                     (case cc t of
                        None \<Rightarrow> result c t
                      | Some pos \<Rightarrow> Some (stripOf b img (animConfig c) pos)))
           else result c t)"
  show ?case
  proof (cases "config c0")
    case None
    obtain cv' result' where r: "sized CHESS_SPRITE_SIZE CHESS_SPRITE_SIZE cv'"
      "colorsLoop b img config animConfig cs (cv, result) = (cv', result')"
      "?spec cs result result'"
      using Cons.IH[OF Cons.prems] by blast
    have "?spec (c0 # cs) result result'"
      using r(3) None by auto
    then show ?thesis
      using r(1,2) None by auto
  next
    case (Some cc)
    obtain cv1 result1 where c1: "sized CHESS_SPRITE_SIZE CHESS_SPRITE_SIZE cv1"
      "pieceTypesLoop b img cc (animConfig c0) c0 [King, Queen, Bishop, Knight, Rook, Pawn]
         (cv, result) = (cv1, result1)"
      "\<forall>c t. result1 c t =
          (if c = c0 \<and> t \<in> set [King, Queen, Bishop, Knight, Rook, Pawn]
           then (case cc t of None \<Rightarrow> result c t
                 | Some pos \<Rightarrow> Some (stripOf b img (animConfig c0) pos))
           else result c t)"
      using pieceTypesLoop_result[OF Cons.prems] by blast
    have "\<exists>cv' result'. sized CHESS_SPRITE_SIZE CHESS_SPRITE_SIZE cv' \<and>
        colorsLoop b img config animConfig cs (cv1, result1) = (cv', result') \<and>
        ?spec cs result1 result'"
      by (rule Cons.IH[OF c1(1)])
    then obtain cv' result' where r: "sized CHESS_SPRITE_SIZE CHESS_SPRITE_SIZE cv'"
      "colorsLoop b img config animConfig cs (cv1, result1) = (cv', result')"
      "?spec cs result1 result'"
      by blast
    have "?spec (c0 # cs) result result'"
      using r(3) c1(3) Some all_piece_types by (auto split: option.splits)
    moreover have "colorsLoop b img config animConfig (c0 # cs) (cv, result) = (cv', result')"
      using Some c1(2) r(2) by simp
    ultimately show ?thesis
      using r(1) by blast
  qed
qed

lemma loadPieceAnimationFrames_result:
  assumes "respond b (length (requested b)) url = Some img" "context2d b"
  shows "fst (loadPieceAnimationFrames b url config animConfig) =
           Inr (\<lambda>c. Some (stripsOf b img (animConfig c) (config c)))"
proof -
  let ?b = "b\<lparr>requested := requested b @ [url]\<rparr>"
  have same: "stripOf ?b img = stripOf b img"
    by (intro ext) (simp add: stripOf_def)
  obtain cv' result' where r:
    "colorsLoop ?b img config animConfig [White, Black, Green, Blue]
       (newCanvas CHESS_SPRITE_SIZE CHESS_SPRITE_SIZE, \<lambda>colour. Map.empty) = (cv', result')"
    "\<forall>c t. result' c t =
          (if c \<in> set [White, Black, Green, Blue]
           then (case config c of
                   None \<Rightarrow> None
                 | Some cc \<Rightarrow>
                     (case cc t of
                        None \<Rightarrow> None
                      | Some pos \<Rightarrow> Some (stripOf ?b img (animConfig c) pos)))
           else None)"
    using colorsLoop_result[OF sized_newCanvas, of ?b img config animConfig
        "[White, Black, Green, Blue]" "\<lambda>colour. Map.empty"]
    by auto
  have "result' c = stripsOf b img (animConfig c) (config c)" for c
  proof
    fix t
    show "result' c t = stripsOf b img (animConfig c) (config c) t"
      using r(2) all_colors[of c] same
      by (simp add: stripsOf_def split: option.splits)
  qed
  then have "result' = (\<lambda>c. stripsOf b img (animConfig c) (config c))"
    by (intro ext) simp
  then show ?thesis
    using assms(2) r(1)
    by (simp add: loadPieceAnimationFrames_def loadImage_ok[OF assms(1)] Let_def)
qed

lemma twoColors_lookup:
  "twoColors Green = None" "twoColors Blue = None"
  "twoColors White = DEFAULT_CHESS_PIECES_CONFIG White"
  "twoColors Black = DEFAULT_CHESS_PIECES_CONFIG Black"
  by (simp_all add: twoColors_def restrict_map_def)

lemma default_complete:
  "complete (DEFAULT_CHESS_PIECES_CONFIG White)" "complete (DEFAULT_CHESS_PIECES_CONFIG Black)"
  by (simp_all add: DEFAULT_CHESS_PIECES_CONFIG_def complete_def)

lemma default_white_king:
  "\<exists>cc pos. DEFAULT_CHESS_PIECES_CONFIG White = Some cc \<and> cc King = Some pos"
  by (simp add: DEFAULT_CHESS_PIECES_CONFIG_def)

lemma pawnsOnly_lookup:
  "pawnsOnly Green = None"
  "\<exists>cc pos. pawnsOnly White = Some cc \<and> cc King = None \<and> cc Pawn = Some pos"
  by (simp_all add: pawnsOnly_def)

text \<open>
  Claim C8. When the image loads and a 2D context is available:
  \<open>loadPieceAnimationFrames\<close> returns a table in which the entry of a colour has a key
  for a piece type exactly when the configuration has that colour and a position for that
  piece type, and the frames under the key are the strip of that position; for a colour
  or a piece type missing from the configuration the key is absent and nothing is put in
  its place. Whenever \<open>loadChessPiecesWithConfig\<close> returns a table, the entry of a colour
  whose configuration is absent has no piece entries, and the sprite under each key is
  the one of that key's own position; it does return a table when white and black have
  all six positions and green and blue are absent or have all six.
\<close>

theorem missing_positions_are_omitted:
  assumes "respond b (length (requested b)) url = Some img"
    and "context2d b"
  shows "(\<exists>frames. fst (loadPieceAnimationFrames b url config animConfig) = Inr frames \<and>
           (\<forall>colour t. \<exists>m. frames colour = Some m \<and>
              m t = (case config colour of
                       None \<Rightarrow> None
                     | Some cc \<Rightarrow> map_option (stripOf b img (animConfig colour)) (cc t))))
     \<and> (\<forall>sprites. fst (loadChessPiecesWithConfig b url config fw fh) = Inr sprites \<longrightarrow>
           (\<forall>colour t. \<exists>m. sprites colour = Some m \<and>
              m t = (case config colour of
                       None \<Rightarrow> None
                     | Some cc \<Rightarrow> map_option (spriteOf b img fw fh) (cc t))))
     \<and> (complete (config White) \<and> complete (config Black) \<and>
          (config Green = None \<or> complete (config Green)) \<and>
          (config Blue = None \<or> complete (config Blue)) \<longrightarrow>
          \<not> isl (fst (loadChessPiecesWithConfig b url config fw fh)))"
proof -
  have anim: "fst (loadPieceAnimationFrames b url config animConfig) =
      Inr (\<lambda>c. Some (stripsOf b img (animConfig c) (config c)))"
    using assms by (rule loadPieceAnimationFrames_result)
  have "\<exists>m. Some (stripsOf b img (animConfig colour) (config colour)) = Some m \<and>
              m t = (case config colour of
                       None \<Rightarrow> None
                     | Some cc \<Rightarrow> map_option (stripOf b img (animConfig colour)) (cc t))"
    for colour t
    by (simp add: stripsOf_def split: option.splits)
  then have a: "\<exists>frames. fst (loadPieceAnimationFrames b url config animConfig) = Inr frames \<and>
           (\<forall>colour t. \<exists>m. frames colour = Some m \<and>
              m t = (case config colour of
                       None \<Rightarrow> None
                     | Some cc \<Rightarrow> map_option (stripOf b img (animConfig colour)) (cc t)))"
    unfolding anim by simp
  note static = loadChessPiecesWithConfig_result[OF assms, of config fw fh]
  have s: "\<forall>colour t. \<exists>m. sprites colour = Some m \<and>
              m t = (case config colour of
                       None \<Rightarrow> None
                     | Some cc \<Rightarrow> map_option (spriteOf b img fw fh) (cc t))"
    if ret: "fst (loadChessPiecesWithConfig b url config fw fh) = Inr sprites" for sprites
  proof -
    have "fst (loadChessPiecesWithConfig b url config fw fh) =
        Inr (\<lambda>c. Some (spritesOf b img fw fh (config c)))"
      using static ret by (elim disjE conjE) simp_all
    then have "sprites = (\<lambda>c. Some (spritesOf b img fw fh (config c)))"
      using ret by simp
    then show ?thesis
      by (simp add: spritesOf_def split: option.splits)
  qed
  have c: "\<not> isl (fst (loadChessPiecesWithConfig b url config fw fh))"
    if ok: "complete (config White) \<and> complete (config Black) \<and>
          (config Green = None \<or> complete (config Green)) \<and>
          (config Blue = None \<or> complete (config Blue))"
  proof -
    have "fst (loadChessPiecesWithConfig b url config fw fh) =
        Inr (\<lambda>c. Some (spritesOf b img fw fh (config c)))"
      using static ok by (elim disjE conjE) simp_all
    then show ?thesis by simp
  qed
  show ?thesis
    using a s c by (intro conjI allI impI) simp_all
qed

text \<open>
  A configuration with white pawns only, and one with white and black only.
\<close>

theorem missing_positions_are_omitted_witness:
  "respond sampleBrowser (length (requested sampleBrowser)) ''/sheet.png'' = Some sampleImage
   \<and> context2d sampleBrowser
   \<and> (\<exists>frames m e. fst (loadPieceAnimationFrames sampleBrowser ''/sheet.png'' pawnsOnly
                          DEFAULT_ANIMATION_COLUMNS) = Inr frames
         \<and> frames White = Some m \<and> m King = None \<and> m Pawn \<noteq> None
         \<and> frames Green = Some e \<and> e Pawn = None)
   \<and> complete (twoColors White) \<and> complete (twoColors Black) \<and> twoColors Green = None
   \<and> (\<exists>sprites m e. fst (loadChessPiecesWithConfig sampleBrowser ''/sheet.png'' twoColors
                           CHESS_SPRITE_SIZE CHESS_SPRITE_SIZE) = Inr sprites
         \<and> sprites White = Some m \<and> m King \<noteq> None
         \<and> sprites Green = Some e \<and> e King = None)"
proof -
  let ?anim = "loadPieceAnimationFrames sampleBrowser ''/sheet.png'' pawnsOnly DEFAULT_ANIMATION_COLUMNS"
  let ?static = "loadChessPiecesWithConfig sampleBrowser ''/sheet.png'' twoColors
      CHESS_SPRITE_SIZE CHESS_SPRITE_SIZE"
  note th1 = missing_positions_are_omitted[OF sample_load sample_ctx,
      where config = pawnsOnly and animConfig = DEFAULT_ANIMATION_COLUMNS
        and fw = CHESS_SPRITE_SIZE and fh = CHESS_SPRITE_SIZE]
  note th2 = missing_positions_are_omitted[OF sample_load sample_ctx,
      where config = twoColors and animConfig = DEFAULT_ANIMATION_COLUMNS
        and fw = CHESS_SPRITE_SIZE and fh = CHESS_SPRITE_SIZE]
  note a1 = th1[THEN conjunct1]
  note s2 = th2[THEN conjunct2, THEN conjunct1]
  note c2 = th2[THEN conjunct2, THEN conjunct2]
  obtain frames where f: "fst ?anim = Inr frames"
    and fall: "\<And>colour t. \<exists>m. frames colour = Some m \<and>
        m t = (case pawnsOnly colour of
                 None \<Rightarrow> None
               | Some cc \<Rightarrow> map_option (stripOf sampleBrowser sampleImage
                    (DEFAULT_ANIMATION_COLUMNS colour)) (cc t))"
    using a1 by (elim exE conjE) simp
  obtain m where m: "frames White = Some m"
    using fall[of White King] by (elim exE conjE)
  obtain e where e: "frames Green = Some e"
    using fall[of Green Pawn] by (elim exE conjE)
  obtain cc pos where cc: "pawnsOnly White = Some cc" "cc King = None" "cc Pawn = Some pos"
    using pawnsOnly_lookup(2) by (elim exE conjE)
  have mk: "m King = None"
    using fall[of White King] m cc by simp
  have mp: "m Pawn \<noteq> None"
    using fall[of White Pawn] m cc by simp
  have ep: "e Pawn = None"
    using fall[of Green Pawn] e pawnsOnly_lookup(1) by simp
  have comp: "complete (twoColors White)" "complete (twoColors Black)" "twoColors Green = None"
    "twoColors Blue = None"
    by (simp_all add: twoColors_lookup default_complete)
  have "\<not> isl (fst ?static)"
    using c2 comp by simp
  then obtain sprites where s: "fst ?static = Inr sprites"
    by (cases "fst ?static") simp_all
  have sall: "\<And>colour t. \<exists>m. sprites colour = Some m \<and>
      m t = (case twoColors colour of
               None \<Rightarrow> None
             | Some cc \<Rightarrow> map_option (spriteOf sampleBrowser sampleImage CHESS_SPRITE_SIZE
                  CHESS_SPRITE_SIZE) (cc t))"
    using s2[rule_format, OF s] by simp
  obtain sm where sm: "sprites White = Some sm"
    using sall[of White King] by (elim exE conjE)
  obtain se where se: "sprites Green = Some se"
    using sall[of Green King] by (elim exE conjE)
  obtain wc wpos where wc: "DEFAULT_CHESS_PIECES_CONFIG White = Some wc" "wc King = Some wpos"
    using default_white_king by (elim exE conjE)
  have smk: "sm King \<noteq> None"
    using sall[of White King] sm wc by (simp add: twoColors_lookup)
  have sek: "se King = None"
    using sall[of Green King] se by (simp add: twoColors_lookup)
  have A: "\<exists>frames m e. fst ?anim = Inr frames
         \<and> frames White = Some m \<and> m King = None \<and> m Pawn \<noteq> None
         \<and> frames Green = Some e \<and> e Pawn = None"
    using f m e mk mp ep by (intro exI[of _ frames] exI[of _ m] exI[of _ e]) simp
  have B: "\<exists>sprites m e. fst ?static = Inr sprites
         \<and> sprites White = Some m \<and> m King \<noteq> None
         \<and> sprites Green = Some e \<and> e King = None"
    using s sm se smk sek by (intro exI[of _ sprites] exI[of _ sm] exI[of _ se]) simp
  show ?thesis
    using sample_load sample_ctx A B comp(1,2,3) by (intro conjI)
qed

end
